theory Spec2Isabelle
  imports Main "HOL-Library.Word"
begin

section \<open>Python values\<close>

text \<open>
  The agent keeps its state as the dictionary \<^verbatim>\<open>json.load\<close> returned, so the state is
  modelled as a JSON value and every dictionary, list and arithmetic operation of the source
  is modelled with the exception Python raises on a value of the wrong shape. A dictionary is
  an association list in insertion order; the first binding of a key is the live one.
  JSON numbers with a fraction or an exponent (Python floats) are outside the model: the
  program itself only ever writes integers. Logging is not modelled.
\<close>

datatype json =
    JNull
  | JBool bool
  | JInt int
  | JStr string
  | JArr "json list"
  | JObj "(string \<times> json) list"

datatype py_error =
    KeyError
  | TypeError
  | AttributeError
  | ValueError
  | FileNotFoundError
  | OSError
  | OtherError string

type_synonym bytes = "8 word list"

text \<open>\<^verbatim>\<open>d[k] = v\<close> on a dictionary: an existing key keeps its position.\<close>

fun dict_set :: "string \<Rightarrow> 'v \<Rightarrow> (string \<times> 'v) list \<Rightarrow> (string \<times> 'v) list" where
  "dict_set k v [] = [(k, v)]"
| "dict_set k v ((k', v') # kvs) =
     (if k' = k then (k, v) # kvs else (k', v') # dict_set k v kvs)"

text \<open>\<^verbatim>\<open>sub in s\<close> on two strings.\<close>

fun is_prefix :: "string \<Rightarrow> string \<Rightarrow> bool" where
  "is_prefix [] s = True"
| "is_prefix (c # cs) [] = False"
| "is_prefix (c # cs) (d # ds) = (c = d \<and> is_prefix cs ds)"

fun is_substring :: "string \<Rightarrow> string \<Rightarrow> bool" where
  "is_substring sub [] = (sub = [])"
| "is_substring sub (d # ds) = (is_prefix sub (d # ds) \<or> is_substring sub ds)"

text \<open>\<^verbatim>\<open>key in x\<close> for a string key: dictionaries test their keys, lists their
  elements, strings their substrings; \<^verbatim>\<open>None\<close>, booleans and integers are not iterable.\<close>

fun py_contains :: "json \<Rightarrow> string \<Rightarrow> py_error + bool" where
  "py_contains (JObj kvs) k = Inr (k \<in> set (map fst kvs))"
| "py_contains (JArr xs) k = Inr (JStr k \<in> set xs)"
| "py_contains (JStr s) k = Inr (is_substring k s)"
| "py_contains JNull k = Inl TypeError"
| "py_contains (JBool b) k = Inl TypeError"
| "py_contains (JInt i) k = Inl TypeError"

text \<open>\<^verbatim>\<open>x[key]\<close> for a string key: only a dictionary can be indexed by a string.\<close>

fun py_getitem :: "json \<Rightarrow> string \<Rightarrow> py_error + json" where
  "py_getitem (JObj kvs) k = (case map_of kvs k of None \<Rightarrow> Inl KeyError | Some v \<Rightarrow> Inr v)"
| "py_getitem JNull k = Inl TypeError"
| "py_getitem (JBool b) k = Inl TypeError"
| "py_getitem (JInt i) k = Inl TypeError"
| "py_getitem (JStr s) k = Inl TypeError"
| "py_getitem (JArr xs) k = Inl TypeError"

text \<open>\<^verbatim>\<open>x[key] = v\<close> for a string key.\<close>

fun py_setitem :: "json \<Rightarrow> string \<Rightarrow> json \<Rightarrow> py_error + json" where
  "py_setitem (JObj kvs) k v = Inr (JObj (dict_set k v kvs))"
| "py_setitem JNull k v = Inl TypeError"
| "py_setitem (JBool b) k v = Inl TypeError"
| "py_setitem (JInt i) k v = Inl TypeError"
| "py_setitem (JStr s) k v = Inl TypeError"
| "py_setitem (JArr xs) k v = Inl TypeError"

text \<open>\<^verbatim>\<open>for p in x\<close>: a dictionary yields its keys, a string its characters.\<close>

fun py_iter :: "json \<Rightarrow> py_error + json list" where
  "py_iter (JArr xs) = Inr xs"
| "py_iter (JObj kvs) = Inr (map (\<lambda>kv. JStr (fst kv)) kvs)"
| "py_iter (JStr s) = Inr (map (\<lambda>c. JStr [c]) s)"
| "py_iter JNull = Inl TypeError"
| "py_iter (JBool b) = Inl TypeError"
| "py_iter (JInt i) = Inl TypeError"

text \<open>Lists and dictionaries cannot be members of a Python set.\<close>

fun hashable :: "json \<Rightarrow> bool" where
  "hashable (JArr xs) = False"
| "hashable (JObj kvs) = False"
| "hashable JNull = True"
| "hashable (JBool b) = True"
| "hashable (JInt i) = True"
| "hashable (JStr s) = True"

text \<open>\<^verbatim>\<open>x += n\<close> for an integer \<open>n\<close>: a boolean counts as 0 or 1.\<close>

fun py_add :: "json \<Rightarrow> int \<Rightarrow> py_error + json" where
  "py_add (JInt a) n = Inr (JInt (a + n))"
| "py_add (JBool b) n = Inr (JInt (of_bool b + n))"
| "py_add JNull n = Inl TypeError"
| "py_add (JStr s) n = Inl TypeError"
| "py_add (JArr xs) n = Inl TypeError"
| "py_add (JObj kvs) n = Inl TypeError"

text \<open>\<^verbatim>\<open>sep.join(parts)\<close>.\<close>

fun join :: "string \<Rightarrow> string list \<Rightarrow> string" where
  "join sep [] = []"
| "join sep [x] = x"
| "join sep (x # y # ys) = x @ sep @ join sep (y # ys)"

text \<open>\<^verbatim>\<open>xs[:k]\<close>: a negative bound counts from the end.\<close>

definition slice_to :: "'a list \<Rightarrow> int \<Rightarrow> 'a list" where
  "slice_to xs k = (if 0 \<le> k then take (nat k) xs else take (length xs - nat (- k)) xs)"

text \<open>\<^verbatim>\<open>s.encode()\<close>: a \<^typ>\<open>string\<close> already is its sequence of bytes.\<close>

definition encode :: "string \<Rightarrow> bytes" where
  "encode s = map of_char s"

section \<open>The scraper (\<^verbatim>\<open>cheese_scraper.py\<close>)\<close>

text \<open>
  The libraries the scraper calls are parameters: \<^verbatim>\<open>base64.b64decode\<close> (\<open>None\<close> when it
  raises; the scraper calls it without validation, so it drops the characters outside the
  base64 alphabet and raises only on a wrong count of data characters or a wrong padding),
  \<^verbatim>\<open>hashlib.md5(..).hexdigest()\<close>, PIL's \<^verbatim>\<open>Image.open\<close> giving width and
  height (\<open>None\<close> when it raises), whether \<^verbatim>\<open>open(path, 'wb')\<close> succeeds, the date
  \<^verbatim>\<open>datetime.now()\<close> formats to (one date for the whole run), and the browser: for a search URL, the \<^verbatim>\<open>src\<close>
  attribute of the image inside each \<^verbatim>\<open>g-img\<close> element (\<open>None\<close> for an element
  whose lookup raises or that has no such attribute), or \<open>None\<close> for the whole page when
  the driver raises or the wait times out. For the agent: \<^verbatim>\<open>Path.resolve\<close>, and whether
  the constructor \<^verbatim>\<open>CheeseScraper()\<close> returns rather than raises.
\<close>

record libs =
  b64decode :: "string \<Rightarrow> bytes option"
  md5_hexdigest :: "bytes \<Rightarrow> string"
  image_size :: "bytes \<Rightarrow> (nat \<times> nat) option"
  write_ok :: "string \<Rightarrow> bool"
  now_date :: string
  rendered_page :: "string \<Rightarrow> string option list option"
  resolve :: "string \<Rightarrow> string"
  scraper_starts :: bool

type_synonym files = "string \<Rightarrow> bytes option"

definition output_dir :: string where
  "output_dir = ''scraped_cheese_images''"

definition cheese_types :: "string list" where
  "cheese_types = [''semi soft'', ''bloomy'', ''blue'', ''hard'', ''washed rind'', ''fresh'']"

definition min_width :: nat where
  "min_width = 100"

definition min_height :: nat where
  "min_height = 100"

definition max_file_size :: nat where
  "max_file_size = 10 * 1024 * 1024"

text \<open>\<^verbatim>\<open>urllib.parse.quote_plus\<close> and \<^verbatim>\<open>urlencode\<close>, as \<^verbatim>\<open>get_search_url\<close> uses them.\<close>

definition hex_digit :: "nat \<Rightarrow> char" where
  "hex_digit n = ''0123456789ABCDEF'' ! (n mod 16)"

definition url_safe :: "char \<Rightarrow> bool" where
  "url_safe c = (c \<in> set ''abcdefghijklmnopqrstuvwxyzABCDEFGHIJKLMNOPQRSTUVWXYZ0123456789_.-~'')"

definition quote_char :: "char \<Rightarrow> string" where
  "quote_char c =
     (if c = CHR '' '' then ''+''
      else if url_safe c then [c]
      else [CHR ''%'', hex_digit (of_char c div 16), hex_digit (of_char c mod 16)])"

definition quote_plus :: "string \<Rightarrow> string" where
  "quote_plus s = concat (map quote_char s)"

definition urlencode :: "(string \<times> string) list \<Rightarrow> string" where
  "urlencode params = join ''&'' (map (\<lambda>(k, v). quote_plus k @ ''='' @ quote_plus v) params)"

definition get_search_url :: "string \<Rightarrow> string" where
  "get_search_url cheese_type =
     (let base_url = ''https://www.google.com/search?'';
          params = [(''q'', cheese_type @ '' cheese''),
                    (''tbm'', ''isch''),
                    (''as_st'', ''y''),
                    (''imgtype'', ''photo''),
                    (''tbs'', ''sur:cl'')]
      in base_url @ urlencode params)"

text \<open>The scan of the page's \<^verbatim>\<open>g-img\<close> elements: keep each inline data URI once.\<close>

fun collect_sources :: "string option list \<Rightarrow> string list \<Rightarrow> string list" where
  "collect_sources [] image_data_list = image_data_list"
| "collect_sources (None # rest) image_data_list = collect_sources rest image_data_list"
| "collect_sources (Some src # rest) image_data_list =
     (if src \<noteq> [] \<and> is_prefix ''data:image'' src \<and> src \<notin> set image_data_list
      then collect_sources rest (image_data_list @ [src])
      else collect_sources rest image_data_list)"

definition scrape_image_data :: "libs \<Rightarrow> string \<Rightarrow> int \<Rightarrow> string list" where
  "scrape_image_data L search_url max_images =
     (case rendered_page L search_url of
        None \<Rightarrow> []
      | Some g_img_elements \<Rightarrow>
          (let image_data_list = collect_sources g_img_elements []
           in if image_data_list = [] then [] else slice_to image_data_list max_images))"

text \<open>\<^verbatim>\<open>base64_data.split(",", 1)\<close>: \<open>None\<close> when there is no comma, so that the
  unpacking into two names raises.\<close>

fun split_comma :: "string \<Rightarrow> (string \<times> string) option" where
  "split_comma [] = None"
| "split_comma (c # cs) =
     (if c = CHR '','' then Some ([], cs)
      else (case split_comma cs of None \<Rightarrow> None | Some (h, e) \<Rightarrow> Some (c # h, e)))"

text \<open>
  \<^verbatim>\<open>save_base64_image\<close>. Every exception is caught and turned into \<open>None\<close>; a file that
  was written before PIL failed to open it stays on disk. Removing a file that was just
  written is taken to succeed.
\<close>

definition save_base64_image :: "libs \<Rightarrow> string \<Rightarrow> string \<Rightarrow> files \<Rightarrow> string option \<times> files" where
  "save_base64_image L base64_data filename fs =
     (case split_comma base64_data of
        None \<Rightarrow> (None, fs)
      | Some (header, encoded) \<Rightarrow>
          (case b64decode L encoded of
             None \<Rightarrow> (None, fs)
           | Some image_data \<Rightarrow>
               if length image_data > max_file_size then (None, fs)
               else
                 (let file_path = output_dir @ ''/'' @ filename
                  in if \<not> write_ok L file_path then (None, fs)
                     else
                       (let fs' = fs(file_path \<mapsto> image_data)
                        in case fs' file_path of
                             None \<Rightarrow> (None, fs')
                           | Some written \<Rightarrow>
                               (case image_size L written of
                                  None \<Rightarrow> (None, fs')
                                | Some (width, height) \<Rightarrow>
                                    if width < min_width \<or> height < min_height
                                    then (None, fs'(file_path := None))
                                    else (Some file_path, fs'))))))"

record metadata =
  md_tags :: "string list"
  md_context :: "(string \<times> string) list"

record candidate =
  cand_id :: string
  cand_file_path :: string
  cand_cheese_type :: string
  cand_metadata :: metadata

definition analyze_image_content :: "libs \<Rightarrow> string \<Rightarrow> string \<Rightarrow> metadata" where
  "analyze_image_content L file_path cheese_type =
     \<lparr>md_tags = [''cheese'', cheese_type],
      md_context = [(''source'', ''google-images''),
                 (''license'', ''creative-commons''),
                 (''scrape_date'', now_date L)]\<rparr>"

text \<open>\<^verbatim>\<open>cheese_type.replace(' ', '_')\<close>.\<close>

definition replace_spaces :: "string \<Rightarrow> string" where
  "replace_spaces s = map (\<lambda>c. if c = CHR '' '' then CHR ''_'' else c) s"

text \<open>The file name \<^verbatim>\<open>find_and_download_candidates\<close> derives for a payload (lines 196-197).\<close>

definition candidate_filename :: "libs \<Rightarrow> string \<Rightarrow> string \<Rightarrow> string" where
  "candidate_filename L cheese_type b64_data =
     (let file_hash = take 10 (md5_hexdigest L (encode b64_data))
      in replace_spaces cheese_type @ ''_'' @ file_hash @ ''.jpg'')"

text \<open>The loop state of \<^verbatim>\<open>find_and_download_candidates\<close>.\<close>

record session =
  candidates_found :: "candidate list"
  processed_count :: nat
  disk :: files

text \<open>The inner loop, over the payloads of one category.\<close>

fun process_payloads :: "libs \<Rightarrow> int \<Rightarrow> string \<Rightarrow> string list \<Rightarrow> session \<Rightarrow> session" where
  "process_payloads L max_total_images cheese_type [] s = s"
| "process_payloads L max_total_images cheese_type (b64_data # rest) s =
     (if int (length (candidates_found s)) \<ge> max_total_images then s
      else
        (let filename = candidate_filename L cheese_type b64_data;
             (file_path, fs') = save_base64_image L b64_data filename (disk s);
             s' = s\<lparr>processed_count := processed_count s + 1, disk := fs'\<rparr>
         in case file_path of
              None \<Rightarrow> process_payloads L max_total_images cheese_type rest s'
            | Some p \<Rightarrow>
                (let candidate = \<lparr>cand_id = filename, cand_file_path = p,
                                  cand_cheese_type = cheese_type,
                                  cand_metadata = analyze_image_content L p cheese_type\<rparr>
                 in process_payloads L max_total_images cheese_type rest
                      (s'\<lparr>candidates_found := candidates_found s' @ [candidate]\<rparr>))))"

text \<open>The outer loop, over the categories.\<close>

fun search_categories :: "libs \<Rightarrow> int \<Rightarrow> string list \<Rightarrow> session \<Rightarrow> session" where
  "search_categories L max_total_images [] s = s"
| "search_categories L max_total_images (cheese_type # rest) s =
     (if int (length (candidates_found s)) \<ge> max_total_images then s
      else
        (let search_url = get_search_url cheese_type;
             images_per_type = max_total_images div int (length cheese_types) + 1;
             image_data_list = scrape_image_data L search_url images_per_type;
             s' = process_payloads L max_total_images cheese_type image_data_list s
         in if int (length (candidates_found s')) \<ge> max_total_images then s'
            else search_categories L max_total_images rest s'))"

definition find_and_download_candidates :: "libs \<Rightarrow> int \<Rightarrow> files \<Rightarrow> candidate list \<times> files" where
  "find_and_download_candidates L max_total_images fs =
     (let s = search_categories L max_total_images cheese_types
                \<lparr>candidates_found = [], processed_count = 0, disk = fs\<rparr>
      in (candidates_found s, disk s))"

section \<open>The agent (\<^verbatim>\<open>cheese_agent.py\<close>)\<close>

text \<open>
  The state file either cannot be opened, or holds text \<^verbatim>\<open>json.load\<close> rejects, or
  holds a JSON document; \<^verbatim>\<open>json.dump\<close> followed by \<^verbatim>\<open>json.load\<close> gives the value back,
  so the file is modelled by the value it holds.
\<close>

datatype stored = Unreadable | Malformed | Doc json

record world =
  state_file :: "stored option"
  state_file_writable :: bool
  images :: files

text \<open>The scraper object, as the one method the agent calls on it.\<close>

type_synonym scraper_obj = "int \<Rightarrow> files \<Rightarrow> (py_error + candidate list) \<times> files"

record agent =
  state :: json
  scraper :: "scraper_obj option"
  daily_target :: int

definition default_state :: json where
  "default_state =
     JObj [(''total_images_scraped'', JInt 0),
           (''pending_uploads'', JArr []),
           (''daily_stats'', JObj [])]"

definition default_items :: "(string \<times> json) list" where
  "default_items =
     [(''total_images_scraped'', JInt 0),
      (''pending_uploads'', JArr []),
      (''daily_stats'', JObj [])]"

text \<open>\<^verbatim>\<open>open(self.state_file, 'r')\<close> and \<^verbatim>\<open>json.load(f)\<close>.\<close>

fun read_json :: "stored \<Rightarrow> py_error + json" where
  "read_json Unreadable = Inl OSError"
| "read_json Malformed = Inl ValueError"
| "read_json (Doc j) = Inr j"

text \<open>The loop of \<^verbatim>\<open>load_agent_state\<close> over the default items.\<close>

fun fill_defaults :: "(string \<times> json) list \<Rightarrow> json \<Rightarrow> py_error + json" where
  "fill_defaults [] st = Inr st"
| "fill_defaults ((key, val) # rest) st =
     (case py_contains st key of
        Inl e \<Rightarrow> Inl e
      | Inr True \<Rightarrow> fill_defaults rest st
      | Inr False \<Rightarrow>
          (case py_setitem st key val of
             Inl e \<Rightarrow> Inl e
           | Inr st' \<Rightarrow> fill_defaults rest st'))"

definition load_agent_state :: "world \<Rightarrow> json" where
  "load_agent_state w =
     (case state_file w of
        None \<Rightarrow> default_state
      | Some f \<Rightarrow>
          (case read_json f of
             Inl e \<Rightarrow> default_state
           | Inr loaded \<Rightarrow>
               (case fill_defaults default_items loaded of
                  Inl e \<Rightarrow> default_state
                | Inr st \<Rightarrow> st)))"

definition save_agent_state :: "json \<Rightarrow> world \<Rightarrow> world" where
  "save_agent_state st w =
     (if state_file_writable w then w\<lparr>state_file := Some (Doc st)\<rparr> else w)"

text \<open>The scraper object the constructor builds, and the constructor of the agent.\<close>

definition CheeseScraper :: "libs \<Rightarrow> scraper_obj" where
  "CheeseScraper L max_total_images fs =
     (let (cands, fs') = find_and_download_candidates L max_total_images fs
      in (Inr cands, fs'))"

definition CheeseScrapingAgent :: "libs \<Rightarrow> world \<Rightarrow> agent" where
  "CheeseScrapingAgent L w =
     \<lparr>state = load_agent_state w,
      scraper = (if scraper_starts L then Some (CheeseScraper L) else None),
      daily_target = 10\<rparr>"

text \<open>\<^verbatim>\<open>Path(p).name\<close> and \<^verbatim>\<open>Path(p).stem\<close> of a path in normal form: the last
  component, cut before its last dot unless that dot is its first or its last character.\<close>

definition path_name :: "string \<Rightarrow> string" where
  "path_name p = rev (takeWhile (\<lambda>c. c \<noteq> CHR ''/'') (rev p))"

definition stem :: "string \<Rightarrow> string" where
  "stem p =
     (let name = path_name p;
          ext = rev (takeWhile (\<lambda>c. c \<noteq> CHR ''.'') (rev name));
          i = length name - length ext - 1
      in if CHR ''.'' \<in> set name \<and> 0 < i \<and> i < length name - 1 then take i name else name)"

record pending_item =
  file_path :: string
  public_id :: string
  item_tags :: string
  item_context :: string

definition item_json :: "pending_item \<Rightarrow> json" where
  "item_json it =
     JObj [(''file_path'', JStr (file_path it)),
           (''public_id'', JStr (public_id it)),
           (''tags'', JStr (item_tags it)),
           (''context'', JStr (item_context it))]"

text \<open>One round of the loop that builds \<^verbatim>\<open>pending_list\<close> (lines 103-113);
  \<^verbatim>\<open>read_bytes\<close> raises when the file is not there.\<close>

definition make_pending_item :: "libs \<Rightarrow> files \<Rightarrow> candidate \<Rightarrow> py_error + pending_item" where
  "make_pending_item L fs cand =
     (let p = cand_file_path cand
      in case fs p of
           None \<Rightarrow> Inl FileNotFoundError
         | Some content \<Rightarrow>
             (let file_hash = take 8 (md5_hexdigest L content);
                  pid = ''cheese-collection/'' @ stem p @ ''_'' @ file_hash;
                  context_str = join ''|'' (map (\<lambda>(k, v). k @ ''='' @ v)
                                               (md_context (cand_metadata cand)))
              in Inr \<lparr>file_path = ''file://'' @ resolve L p,
                      public_id = pid,
                      item_tags = join '','' (md_tags (cand_metadata cand)),
                      item_context = context_str\<rparr>))"

fun make_pending_list :: "libs \<Rightarrow> files \<Rightarrow> candidate list \<Rightarrow> py_error + pending_item list" where
  "make_pending_list L fs [] = Inr []"
| "make_pending_list L fs (cand # rest) =
     (case make_pending_item L fs cand of
        Inl e \<Rightarrow> Inl e
      | Inr it \<Rightarrow>
          (case make_pending_list L fs rest of
             Inl e \<Rightarrow> Inl e
           | Inr its \<Rightarrow> Inr (it # its)))"

text \<open>The set comprehension \<^verbatim>\<open>{p['file_path'] for p in self.state['pending_uploads']}\<close>.
  The agent only ever looks strings up in this set, and a string equals nothing but an
  equal string.\<close>

fun collect_paths :: "json list \<Rightarrow> py_error + json set" where
  "collect_paths [] = Inr {}"
| "collect_paths (p # ps) =
     (case py_getitem p ''file_path'' of
        Inl e \<Rightarrow> Inl e
      | Inr v \<Rightarrow>
          if hashable v
          then (case collect_paths ps of Inl e \<Rightarrow> Inl e | Inr S \<Rightarrow> Inr (insert v S))
          else Inl TypeError)"

definition existing_paths_of :: "json \<Rightarrow> py_error + json set" where
  "existing_paths_of st =
     (case py_getitem st ''pending_uploads'' of
        Inl e \<Rightarrow> Inl e
      | Inr v \<Rightarrow> (case py_iter v of Inl e \<Rightarrow> Inl e | Inr ps \<Rightarrow> collect_paths ps))"

text \<open>\<^verbatim>\<open>self.state['pending_uploads'].append(pending_item)\<close>: only a list has
  \<^verbatim>\<open>append\<close>, and it grows in place inside the state.\<close>

fun append_pending :: "json \<Rightarrow> json \<Rightarrow> py_error + json" where
  "append_pending (JObj kvs) item =
     (case map_of kvs ''pending_uploads'' of
        None \<Rightarrow> Inl KeyError
      | Some (JArr xs) \<Rightarrow> Inr (JObj (dict_set ''pending_uploads'' (JArr (xs @ [item])) kvs))
      | Some _ \<Rightarrow> Inl AttributeError)"
| "append_pending JNull item = Inl TypeError"
| "append_pending (JBool b) item = Inl TypeError"
| "append_pending (JInt i) item = Inl TypeError"
| "append_pending (JStr s) item = Inl TypeError"
| "append_pending (JArr xs) item = Inl TypeError"

text \<open>The merge loop (lines 118-122). It returns the state as it is when the loop ends or
  raises, together with the count of entries added or the exception.\<close>

fun merge_pending ::
  "pending_item list \<Rightarrow> json \<Rightarrow> json set \<Rightarrow> int \<Rightarrow> json \<times> (py_error + int)" where
  "merge_pending [] st existing_paths new_candidates_added = (st, Inr new_candidates_added)"
| "merge_pending (it # rest) st existing_paths new_candidates_added =
     (if JStr (file_path it) \<notin> existing_paths
      then (case append_pending st (item_json it) of
              Inl e \<Rightarrow> (st, Inl e)
            | Inr st' \<Rightarrow>
                merge_pending rest st' (insert (JStr (file_path it)) existing_paths)
                  (new_candidates_added + 1))
      else merge_pending rest st existing_paths new_candidates_added)"

text \<open>\<^verbatim>\<open>self.state['total_images_scraped'] += new_candidates_added\<close>.\<close>

definition add_total :: "json \<Rightarrow> int \<Rightarrow> py_error + json" where
  "add_total st n =
     (case py_getitem st ''total_images_scraped'' of
        Inl e \<Rightarrow> Inl e
      | Inr v \<Rightarrow>
          (case py_add v n of
             Inl e \<Rightarrow> Inl e
           | Inr v' \<Rightarrow> py_setitem st ''total_images_scraped'' v'))"

text \<open>Lines 127-128: the bucket of today is created when the date is not in
  \<^verbatim>\<open>daily_stats\<close>.\<close>

definition init_daily :: "string \<Rightarrow> json \<Rightarrow> py_error + json" where
  "init_daily today_str st =
     (case py_getitem st ''daily_stats'' of
        Inl e \<Rightarrow> Inl e
      | Inr daily \<Rightarrow>
          (case py_contains daily today_str of
             Inl e \<Rightarrow> Inl e
           | Inr True \<Rightarrow> Inr st
           | Inr False \<Rightarrow>
               (case py_setitem daily today_str (JObj [(''scraped'', JInt 0)]) of
                  Inl e \<Rightarrow> Inl e
                | Inr daily' \<Rightarrow> py_setitem st ''daily_stats'' daily')))"

text \<open>Line 129: \<^verbatim>\<open>self.state['daily_stats'][today_str]['scraped'] += new_candidates_added\<close>.\<close>

definition bump_daily :: "string \<Rightarrow> json \<Rightarrow> int \<Rightarrow> py_error + json" where
  "bump_daily today_str st n =
     (case py_getitem st ''daily_stats'' of
        Inl e \<Rightarrow> Inl e
      | Inr daily \<Rightarrow>
          (case py_getitem daily today_str of
             Inl e \<Rightarrow> Inl e
           | Inr bucket \<Rightarrow>
               (case py_getitem bucket ''scraped'' of
                  Inl e \<Rightarrow> Inl e
                | Inr v \<Rightarrow>
                    (case py_add v n of
                       Inl e \<Rightarrow> Inl e
                     | Inr v' \<Rightarrow>
                         (case py_setitem bucket ''scraped'' v' of
                            Inl e \<Rightarrow> Inl e
                          | Inr bucket' \<Rightarrow>
                              (case py_setitem daily today_str bucket' of
                                 Inl e \<Rightarrow> Inl e
                               | Inr daily' \<Rightarrow> py_setitem st ''daily_stats'' daily'))))))"

text \<open>How the body of the \<^verbatim>\<open>try\<close> block ends.\<close>

datatype outcome = No_candidates | Completed int | Raised py_error

text \<open>Lines 116-129: the merge of \<^verbatim>\<open>pending_list\<close> into the state and the update of
  the counters. The state returned is the in-memory state when the block ends or raises.\<close>

definition merge_into_state :: "string \<Rightarrow> pending_item list \<Rightarrow> json \<Rightarrow> outcome \<times> json" where
  "merge_into_state today_str pending_list st =
     (case existing_paths_of st of
        Inl e \<Rightarrow> (Raised e, st)
      | Inr existing_paths \<Rightarrow>
          (case merge_pending pending_list st existing_paths 0 of
             (st1, Inl e) \<Rightarrow> (Raised e, st1)
           | (st1, Inr new_candidates_added) \<Rightarrow>
               (case add_total st1 new_candidates_added of
                  Inl e \<Rightarrow> (Raised e, st1)
                | Inr st2 \<Rightarrow>
                    (case init_daily today_str st2 of
                       Inl e \<Rightarrow> (Raised e, st2)
                     | Inr st3 \<Rightarrow>
                         (case bump_daily today_str st3 new_candidates_added of
                            Inl e \<Rightarrow> (Raised e, st3)
                          | Inr st4 \<Rightarrow> (Completed new_candidates_added, st4))))))"

text \<open>The body of the \<^verbatim>\<open>try\<close> block of \<^verbatim>\<open>run\<close> (lines 93-137): the way it ends,
  the in-memory state at that point, and the image files.\<close>

definition run_body ::
  "libs \<Rightarrow> scraper_obj \<Rightarrow> int \<Rightarrow> json \<Rightarrow> files \<Rightarrow> outcome \<times> json \<times> files" where
  "run_body L sc target st fs =
     (case sc target fs of
        (Inl e, fs') \<Rightarrow> (Raised e, st, fs')
      | (Inr candidates, fs') \<Rightarrow>
          if candidates = [] then (No_candidates, st, fs')
          else
            (case make_pending_list L fs' candidates of
               Inl e \<Rightarrow> (Raised e, st, fs')
             | Inr pending_list \<Rightarrow>
                 (case merge_into_state (now_date L) pending_list st of
                    (out, st') \<Rightarrow> (out, st', fs'))))"

text \<open>\<^verbatim>\<open>run\<close>: without a scraper it returns before the \<^verbatim>\<open>try\<close> block; otherwise the
  \<^verbatim>\<open>finally\<close> clause saves the state however the body ended.\<close>

definition run :: "libs \<Rightarrow> agent \<Rightarrow> world \<Rightarrow> agent \<times> world" where
  "run L a w =
     (case scraper a of
        None \<Rightarrow> (a, w)
      | Some sc \<Rightarrow>
          (case run_body L sc (daily_target a) (state a) (images w) of
             (out, st, fs) \<Rightarrow>
               (a\<lparr>state := st\<rparr>, save_agent_state st (w\<lparr>images := fs\<rparr>))))"

text \<open>The script: construct the agent, run it once.\<close>

definition main :: "libs \<Rightarrow> world \<Rightarrow> world" where
  "main L w = snd (run L (CheeseScrapingAgent L w) w)"

section \<open>Reading the state\<close>

text \<open>The entries of \<^verbatim>\<open>pending_uploads\<close> (none when the state has no such list), the
  \<^verbatim>\<open>file_path\<close> of an entry, and the queue invariant: no two entries with the same
  \<^verbatim>\<open>file_path\<close>.\<close>

definition pending_uploads :: "json \<Rightarrow> json list" where
  "pending_uploads st =
     (case py_getitem st ''pending_uploads'' of Inr (JArr xs) \<Rightarrow> xs | _ \<Rightarrow> [])"

fun entry_uri :: "json \<Rightarrow> json option" where
  "entry_uri (JObj kvs) = map_of kvs ''file_path''"
| "entry_uri JNull = None"
| "entry_uri (JBool b) = None"
| "entry_uri (JInt i) = None"
| "entry_uri (JStr s) = None"
| "entry_uri (JArr xs) = None"

definition pending_uris :: "json \<Rightarrow> json list" where
  "pending_uris st = List.map_filter entry_uri (pending_uploads st)"

definition no_duplicate_uris :: "json \<Rightarrow> bool" where
  "no_duplicate_uris st = distinct (pending_uris st)"

text \<open>A counter as Python reads it: an integer, or a boolean counting as 0 or 1.\<close>

fun as_int :: "json \<Rightarrow> int option" where
  "as_int (JInt a) = Some a"
| "as_int (JBool b) = Some (of_bool b)"
| "as_int JNull = None"
| "as_int (JStr s) = None"
| "as_int (JArr xs) = None"
| "as_int (JObj kvs) = None"

definition total_images_scraped :: "json \<Rightarrow> int option" where
  "total_images_scraped st =
     (case py_getitem st ''total_images_scraped'' of Inl e \<Rightarrow> None | Inr v \<Rightarrow> as_int v)"

text \<open>The bucket of a date in \<^verbatim>\<open>daily_stats\<close>, and its \<^verbatim>\<open>scraped\<close> counter.\<close>

definition daily_bucket :: "string \<Rightarrow> json \<Rightarrow> json option" where
  "daily_bucket d st =
     (case py_getitem st ''daily_stats'' of
        Inl e \<Rightarrow> None
      | Inr daily \<Rightarrow> (case py_getitem daily d of Inl e \<Rightarrow> None | Inr bucket \<Rightarrow> Some bucket))"

definition daily_scraped :: "string \<Rightarrow> json \<Rightarrow> int option" where
  "daily_scraped d st =
     (case daily_bucket d st of
        None \<Rightarrow> None
      | Some bucket \<Rightarrow>
          (case py_getitem bucket ''scraped'' of Inl e \<Rightarrow> None | Inr v \<Rightarrow> as_int v))"

text \<open>The items of a pending list that the merge loop appends, given the paths seen so far:
  those whose \<^verbatim>\<open>file_path\<close> is neither seen nor carried by an earlier item.\<close>

fun fresh_items :: "pending_item list \<Rightarrow> json set \<Rightarrow> pending_item list" where
  "fresh_items [] seen = []"
| "fresh_items (it # rest) seen =
     (if JStr (file_path it) \<notin> seen
      then it # fresh_items rest (insert (JStr (file_path it)) seen)
      else fresh_items rest seen)"

text \<open>What the persisted file says about the queue: nothing when it is missing, unreadable
  or malformed.\<close>

fun stored_no_duplicates :: "stored option \<Rightarrow> bool" where
  "stored_no_duplicates (Some (Doc j)) = no_duplicate_uris j"
| "stored_no_duplicates (Some Unreadable) = True"
| "stored_no_duplicates (Some Malformed) = True"
| "stored_no_duplicates None = True"

text \<open>A history of the agent: calls of \<^verbatim>\<open>run\<close> on the agent at hand, and restarts of
  the script, which construct a new agent from the state file. Each step has the
  environment it happens in.\<close>

datatype step = Run libs | Restart libs

fun exec :: "step list \<Rightarrow> agent \<times> world \<Rightarrow> agent \<times> world" where
  "exec [] aw = aw"
| "exec (Run L # rest) aw = exec rest (run L (fst aw) (snd aw))"
| "exec (Restart L # rest) aw = exec rest (CheeseScrapingAgent L (snd aw), snd aw)"

section \<open>An example environment\<close>

text \<open>Small inputs for the examples below. The two payloads decode to two bytes each; the
  decoder, the digests and the image sizes are tables over these inputs, the digests being
  the MD5 digests of the inputs listed. A body of four exclamation marks has no character
  of the alphabet: the decoder drops them all and returns no bytes.\<close>

definition payload_large :: string where
  "payload_large = ''data:image/jpeg;base64,yMg=''"

definition payload_small :: string where
  "payload_small = ''data:image/jpeg;base64,MjI=''"

definition payload_no_comma :: string where
  "payload_no_comma = ''data:image/jpeg;base64''"

definition payload_bad_body :: string where
  "payload_bad_body = ''data:image/jpeg;base64,A''"

definition payload_stray_chars :: string where
  "payload_stray_chars = ''data:image/jpeg;base64,!!!!''"

text \<open>What the specification calls valid base64, in the words of RFC 4648: groups of four
  characters of the alphabet, the last group padded with at most two \<open>=\<close>.\<close>

definition base64_alphabet :: string where
  "base64_alphabet = ''ABCDEFGHIJKLMNOPQRSTUVWXYZabcdefghijklmnopqrstuvwxyz0123456789+/''"

definition spec_valid_base64 :: "string \<Rightarrow> bool" where
  "spec_valid_base64 body =
     (let chars = takeWhile (\<lambda>c. c \<noteq> CHR ''='') body;
          padding = dropWhile (\<lambda>c. c \<noteq> CHR ''='') body
      in length body mod 4 = 0
         \<and> list_all (\<lambda>c. c \<in> set base64_alphabet) chars
         \<and> length padding \<le> 2
         \<and> list_all (\<lambda>c. c = CHR ''='') padding)"

definition example_libs :: libs where
  "example_libs =
     \<lparr>b64decode = (\<lambda>s. if s = ''yMg='' then Some [200, 200]
                         else if s = ''MjI='' then Some [50, 50]
                         else if s = ''!!!!'' then Some [] else None),
      md5_hexdigest = (\<lambda>b. if b = [200, 200] then ''21811d6703a43059cdc3dcad1bf717c4''
                             else if b = encode payload_large then ''24fd64e7e46652e3ab096d7cf62db595''
                             else if b = encode payload_small then ''5c23915b4470af9ca3347f782b773af3''
                             else ''d41d8cd98f00b204e9800998ecf8427e''),
      image_size = (\<lambda>b. if b = [200, 200] then Some (200, 200)
                          else if b = [50, 50] then Some (50, 50) else None),
      write_ok = (\<lambda>p. True),
      now_date = ''2025-06-01'',
      rendered_page = (\<lambda>url. if url = get_search_url ''semi soft''
                                then Some [Some payload_large, None, Some payload_small]
                                else None),
      resolve = (\<lambda>p. ''/srv/agent/'' @ p),
      scraper_starts = True\<rparr>"

text \<open>The same environment with a decoder that yields 11 MiB.\<close>

definition big_libs :: libs where
  "big_libs = example_libs\<lparr>b64decode := (\<lambda>s. Some (replicate (11 * 1024 * 1024) 0))\<rparr>"

text \<open>A world with no state file and no image, the queue entry of the first payload, the
  state after a first run, a state whose counter is not a number, an environment whose
  pages show nothing, a scraper object whose method raises, and an environment in which the
  scraper cannot be constructed.\<close>

definition world0 :: world where
  "world0 = \<lparr>state_file = None, state_file_writable = True, images = Map.empty\<rparr>"

definition images1 :: files where
  "images1 = [''scraped_cheese_images/semi_soft_24fd64e7e4.jpg'' \<mapsto> [200, 200]]"

definition entry1 :: json where
  "entry1 =
     JObj [(''file_path'', JStr ''file:///srv/agent/scraped_cheese_images/semi_soft_24fd64e7e4.jpg''),
           (''public_id'', JStr ''cheese-collection/semi_soft_24fd64e7e4_21811d67''),
           (''tags'', JStr ''cheese,semi soft''),
           (''context'', JStr ''source=google-images|license=creative-commons|scrape_date=2025-06-01'')]"

definition state1 :: json where
  "state1 =
     JObj [(''total_images_scraped'', JInt 1),
           (''pending_uploads'', JArr [entry1]),
           (''daily_stats'', JObj [(''2025-06-01'', JObj [(''scraped'', JInt 1)])])]"

definition candidate1 :: candidate where
  "candidate1 =
     \<lparr>cand_id = ''semi_soft_24fd64e7e4.jpg'',
      cand_file_path = ''scraped_cheese_images/semi_soft_24fd64e7e4.jpg'',
      cand_cheese_type = ''semi soft'',
      cand_metadata = \<lparr>md_tags = [''cheese'', ''semi soft''],
                       md_context = [(''source'', ''google-images''),
                                     (''license'', ''creative-commons''),
                                     (''scrape_date'', ''2025-06-01'')]\<rparr>\<rparr>"

definition item1 :: pending_item where
  "item1 =
     \<lparr>file_path = ''file:///srv/agent/scraped_cheese_images/semi_soft_24fd64e7e4.jpg'',
      public_id = ''cheese-collection/semi_soft_24fd64e7e4_21811d67'',
      item_tags = ''cheese,semi soft'',
      item_context = ''source=google-images|license=creative-commons|scrape_date=2025-06-01''\<rparr>"





definition no_scraper_libs :: libs where
  "no_scraper_libs = example_libs\<lparr>scraper_starts := False\<rparr>"

section \<open>Dictionaries and the merge loop\<close>

lemma map_of_dict_set: "map_of (dict_set k v kvs) = (map_of kvs)(k \<mapsto> v)"
  by (induction kvs) (auto simp add: fun_eq_iff)

lemma in_keys_iff: "k \<in> set (map fst kvs) \<longleftrightarrow> map_of kvs k \<noteq> None"
  by (simp add: map_of_eq_None_iff)

lemma py_getitem_Inr: "py_getitem st k = Inr v \<Longrightarrow> \<exists>kvs. st = JObj kvs \<and> map_of kvs k = Some v"
  by (cases st) (auto split: option.splits)

lemma py_setitem_Inr: "py_setitem st k v = Inr st' \<Longrightarrow> \<exists>kvs. st = JObj kvs \<and> st' = JObj (dict_set k v kvs)"
  by (cases st) auto

lemma py_getitem_setitem_other:
  "py_setitem st k v = Inr st' \<Longrightarrow> k' \<noteq> k \<Longrightarrow> py_getitem st' k' = py_getitem st k'"
  by (auto dest!: py_setitem_Inr simp add: map_of_dict_set)

lemma py_getitem_setitem_same:
  "py_setitem st k v = Inr st' \<Longrightarrow> py_getitem st' k = Inr v"
  by (auto dest!: py_setitem_Inr simp add: map_of_dict_set)

lemma append_pending_list:
  assumes "py_getitem st ''pending_uploads'' = Inr (JArr xs)"
  shows "\<exists>st'. append_pending st item = Inr st'
           \<and> py_getitem st' ''pending_uploads'' = Inr (JArr (xs @ [item]))
           \<and> (\<forall>k. k \<noteq> ''pending_uploads'' \<longrightarrow> py_getitem st' k = py_getitem st k)"
  using assms by (auto dest!: py_getitem_Inr simp add: map_of_dict_set)

lemma append_pending_not_list:
  assumes "\<nexists>xs. py_getitem st ''pending_uploads'' = Inr (JArr xs)"
  shows "\<exists>e. append_pending st item = Inl e"
  using assms by (cases st) (auto split: option.splits json.splits)

lemma merge_pending_list:
  assumes "py_getitem st ''pending_uploads'' = Inr (JArr xs)"
  shows "\<exists>st'. merge_pending its st seen n = (st', Inr (n + int (length (fresh_items its seen))))
           \<and> py_getitem st' ''pending_uploads''
               = Inr (JArr (xs @ map item_json (fresh_items its seen)))
           \<and> (\<forall>k. k \<noteq> ''pending_uploads'' \<longrightarrow> py_getitem st' k = py_getitem st k)"
  using assms
proof (induction its arbitrary: st seen n xs)
  case Nil
  then show ?case by simp
next
  case (Cons it its)
  show ?case
  proof (cases "JStr (file_path it) \<in> seen")
    case True
    with Cons.IH [OF Cons.prems, of seen n] show ?thesis by simp
  next
    case False
    from append_pending_list [OF Cons.prems, of "item_json it"] obtain st1 where
      a: "append_pending st (item_json it) = Inr st1"
      and g: "py_getitem st1 ''pending_uploads'' = Inr (JArr (xs @ [item_json it]))"
      and o: "\<forall>k. k \<noteq> ''pending_uploads'' \<longrightarrow> py_getitem st1 k = py_getitem st k"
      by blast
    from Cons.IH [OF g, of "insert (JStr (file_path it)) seen" "n + 1"] False a o
    show ?thesis by auto
  qed
qed

lemma merge_pending_not_list:
  assumes "\<nexists>xs. py_getitem st ''pending_uploads'' = Inr (JArr xs)"
  shows "fst (merge_pending its st seen n) = st
         \<and> (\<forall>k. snd (merge_pending its st seen n) = Inr k \<longrightarrow> k = n \<and> fresh_items its seen = [])"
proof (induction its)
  case Nil
  then show ?case by simp
next
  case (Cons it its)
  from append_pending_not_list [OF assms, of "item_json it"] obtain e where
    "append_pending st (item_json it) = Inl e" by blast
  with Cons show ?case by auto
qed

lemma fresh_items_distinct:
  "distinct (map file_path (fresh_items its seen))
   \<and> (\<forall>it \<in> set (fresh_items its seen). JStr (file_path it) \<notin> seen)
   \<and> set (fresh_items its seen) \<subseteq> set its"
proof (induction its arbitrary: seen)
  case Nil
  then show ?case by simp
next
  case (Cons it its)
  show ?case
  proof (cases "JStr (file_path it) \<in> seen")
    case True
    with Cons [of seen] show ?thesis by auto
  next
    case False
    with Cons [of "insert (JStr (file_path it)) seen"] show ?thesis by auto
  qed
qed

lemma collect_paths_set:
  "collect_paths ps = Inr S \<Longrightarrow>
     S = set (List.map_filter entry_uri ps) \<and> length (List.map_filter entry_uri ps) = length ps"
proof (induction ps arbitrary: S)
  case Nil
  then show ?case by (simp add: List.map_filter_simps)
next
  case (Cons p ps)
  then show ?case
    by (cases p) (auto simp add: List.map_filter_simps split: option.splits sum.splits if_splits)
qed

text \<open>The updates of the counters, when they do not raise.\<close>

lemma py_add_Inr: "py_add v n = Inr v' \<Longrightarrow> \<exists>a. as_int v = Some a \<and> v' = JInt (a + n)"
  by (cases v) auto

lemma add_total_Inr:
  assumes "add_total st n = Inr st'"
  shows "\<exists>a. total_images_scraped st = Some a
           \<and> py_getitem st' ''total_images_scraped'' = Inr (JInt (a + n))
           \<and> (\<forall>k. k \<noteq> ''total_images_scraped'' \<longrightarrow> py_getitem st' k = py_getitem st k)"
proof -
  from assms obtain v v' where
    g: "py_getitem st ''total_images_scraped'' = Inr v" and a: "py_add v n = Inr v'"
    and s: "py_setitem st ''total_images_scraped'' v' = Inr st'"
    by (auto simp add: add_total_def split: sum.splits)
  from py_add_Inr [OF a] obtain i where i: "as_int v = Some i" "v' = JInt (i + n)" by blast
  from g i have "total_images_scraped st = Some i" by (simp add: total_images_scraped_def)
  moreover from s i have "py_getitem st' ''total_images_scraped'' = Inr (JInt (i + n))"
    using py_getitem_setitem_same by blast
  moreover from s have "\<forall>k. k \<noteq> ''total_images_scraped'' \<longrightarrow> py_getitem st' k = py_getitem st k"
    using py_getitem_setitem_other by blast
  ultimately show ?thesis by blast
qed

lemma init_daily_Inr:
  assumes "init_daily d st = Inr st'"
  shows "(\<forall>k. k \<noteq> ''daily_stats'' \<longrightarrow> py_getitem st' k = py_getitem st k)
         \<and> (\<forall>b. daily_bucket d st = Some b \<longrightarrow> st' = st)
         \<and> (daily_bucket d st = None \<longrightarrow>
               daily_bucket d st' = None \<or> daily_bucket d st' = Some (JObj [(''scraped'', JInt 0)]))
         \<and> (\<forall>d'. d' \<noteq> d \<longrightarrow> daily_bucket d' st' = daily_bucket d' st)"
proof -
  from assms obtain daily c where
    g: "py_getitem st ''daily_stats'' = Inr daily" and c: "py_contains daily d = Inr c"
    by (auto simp add: init_daily_def split: sum.splits)
  show ?thesis
  proof (cases c)
    case True
    with assms g c have "st' = st" by (simp add: init_daily_def)
    then show ?thesis by auto
  next
    case False
    with assms g c obtain daily' where
      s1: "py_setitem daily d (JObj [(''scraped'', JInt 0)]) = Inr daily'"
      and s2: "py_setitem st ''daily_stats'' daily' = Inr st'"
      by (auto simp add: init_daily_def split: sum.splits)
    from s1 obtain kvs where k: "daily = JObj kvs" using py_setitem_Inr by blast
    with c False have "map_of kvs d = None" by (simp add: map_of_eq_None_iff)
    with g k have n: "daily_bucket d st = None" by (simp add: daily_bucket_def)
    from s2 have g': "py_getitem st' ''daily_stats'' = Inr daily'"
      using py_getitem_setitem_same by blast
    from s1 have "py_getitem daily' d = Inr (JObj [(''scraped'', JInt 0)])"
      using py_getitem_setitem_same by blast
    with g' have b: "daily_bucket d st' = Some (JObj [(''scraped'', JInt 0)])"
      by (simp add: daily_bucket_def)
    have o: "\<forall>d'. d' \<noteq> d \<longrightarrow> daily_bucket d' st' = daily_bucket d' st"
      using g g' py_getitem_setitem_other [OF s1] by (simp add: daily_bucket_def)
    from s2 have "\<forall>k. k \<noteq> ''daily_stats'' \<longrightarrow> py_getitem st' k = py_getitem st k"
      using py_getitem_setitem_other by blast
    with n b o show ?thesis by simp
  qed
qed

lemma bump_daily_Inr:
  assumes "bump_daily d st n = Inr st'"
  shows "(\<forall>k. k \<noteq> ''daily_stats'' \<longrightarrow> py_getitem st' k = py_getitem st k)
         \<and> (\<exists>a. daily_scraped d st = Some a \<and> daily_scraped d st' = Some (a + n))
         \<and> (\<forall>d'. d' \<noteq> d \<longrightarrow> daily_bucket d' st' = daily_bucket d' st)"
proof -
  from assms obtain daily bucket v v' bucket' daily' where
    g: "py_getitem st ''daily_stats'' = Inr daily"
    and gb: "py_getitem daily d = Inr bucket"
    and gv: "py_getitem bucket ''scraped'' = Inr v"
    and a: "py_add v n = Inr v'"
    and s1: "py_setitem bucket ''scraped'' v' = Inr bucket'"
    and s2: "py_setitem daily d bucket' = Inr daily'"
    and s3: "py_setitem st ''daily_stats'' daily' = Inr st'"
    by (auto simp add: bump_daily_def split: sum.splits)
  from py_add_Inr [OF a] obtain i where i: "as_int v = Some i" "v' = JInt (i + n)" by blast
  from g gb gv i have b: "daily_scraped d st = Some i"
    by (simp add: daily_scraped_def daily_bucket_def)
  have g': "py_getitem st' ''daily_stats'' = Inr daily'"
    using s3 py_getitem_setitem_same by blast
  have gb': "py_getitem daily' d = Inr bucket'"
    using s2 py_getitem_setitem_same by blast
  have gv': "py_getitem bucket' ''scraped'' = Inr (JInt (i + n))"
    using s1 i py_getitem_setitem_same by blast
  from g' gb' gv' have b': "daily_scraped d st' = Some (i + n)"
    by (simp add: daily_scraped_def daily_bucket_def)
  have o: "\<forall>d'. d' \<noteq> d \<longrightarrow> daily_bucket d' st' = daily_bucket d' st"
    using g g' py_getitem_setitem_other [OF s2] by (simp add: daily_bucket_def)
  from s3 have "\<forall>k. k \<noteq> ''daily_stats'' \<longrightarrow> py_getitem st' k = py_getitem st k"
    using py_getitem_setitem_other by blast
  with b b' o show ?thesis by blast
qed

lemma merge_pending_other_keys:
  assumes "k \<noteq> ''pending_uploads''"
  shows "py_getitem (fst (merge_pending its st seen n)) k = py_getitem st k"
proof (cases "\<exists>xs. py_getitem st ''pending_uploads'' = Inr (JArr xs)")
  case True
  then obtain xs where "py_getitem st ''pending_uploads'' = Inr (JArr xs)" by blast
  from merge_pending_list [OF this, of its seen n] assms show ?thesis by auto
next
  case False
  with merge_pending_not_list [of st its seen n] show ?thesis by simp
qed

lemma existing_paths_of_list:
  assumes "py_getitem st ''pending_uploads'' = Inr (JArr xs)"
    and "existing_paths_of st = Inr seen"
  shows "seen = set (pending_uris st)"
  using assms collect_paths_set [of xs seen]
  by (simp add: existing_paths_of_def pending_uris_def pending_uploads_def)

lemma pending_uploads_cong:
  "py_getitem st' ''pending_uploads'' = py_getitem st ''pending_uploads''
     \<Longrightarrow> pending_uploads st' = pending_uploads st"
  by (simp add: pending_uploads_def)

lemma total_cong:
  "py_getitem st' ''total_images_scraped'' = py_getitem st ''total_images_scraped''
     \<Longrightarrow> total_images_scraped st' = total_images_scraped st"
  by (simp add: total_images_scraped_def)

lemma daily_cong:
  "py_getitem st' ''daily_stats'' = py_getitem st ''daily_stats''
     \<Longrightarrow> daily_bucket d st' = daily_bucket d st \<and> daily_scraped d st' = daily_scraped d st"
  by (simp add: daily_bucket_def daily_scraped_def)

lemma daily_scraped_bucket:
  "daily_scraped d st = Some a \<Longrightarrow> daily_bucket d st \<noteq> None"
  by (auto simp add: daily_scraped_def split: option.splits)

text \<open>The stages of the merge, when it runs to its end.\<close>

lemma merge_into_state_Completed:
  assumes "merge_into_state d its st = (Completed k, st')"
  shows "\<exists>seen st1 st2 st3.
           existing_paths_of st = Inr seen
           \<and> merge_pending its st seen 0 = (st1, Inr k)
           \<and> add_total st1 k = Inr st2
           \<and> init_daily d st2 = Inr st3
           \<and> bump_daily d st3 k = Inr st'"
  using assms
  by (auto simp add: merge_into_state_def split: sum.splits prod.splits)

lemma merge_into_state_Raised:
  assumes "merge_into_state d its st = (out, st')" and "\<forall>k. out \<noteq> Completed k"
  shows "(\<exists>e. out = Raised e) \<and>
         (st' = st
          \<or> (\<exists>seen r. existing_paths_of st = Inr seen \<and> merge_pending its st seen 0 = (st', r))
          \<or> (\<exists>seen st1 k st2. existing_paths_of st = Inr seen
                \<and> merge_pending its st seen 0 = (st1, Inr k)
                \<and> add_total st1 k = Inr st2 \<and> (st' = st2 \<or> init_daily d st2 = Inr st')))"
  using assms
  by (auto simp add: merge_into_state_def split: sum.splits prod.splits)

lemma add_total_keeps:
  "add_total st n = Inr st' \<Longrightarrow>
     py_getitem st' ''pending_uploads'' = py_getitem st ''pending_uploads''
     \<and> py_getitem st' ''daily_stats'' = py_getitem st ''daily_stats''"
  using add_total_Inr [of st n st'] by auto

lemma init_daily_keeps:
  "init_daily d st = Inr st' \<Longrightarrow>
     py_getitem st' ''pending_uploads'' = py_getitem st ''pending_uploads''
     \<and> py_getitem st' ''total_images_scraped'' = py_getitem st ''total_images_scraped''"
  using init_daily_Inr [of d st st'] by auto

lemma bump_daily_keeps:
  "bump_daily d st n = Inr st' \<Longrightarrow>
     py_getitem st' ''pending_uploads'' = py_getitem st ''pending_uploads''
     \<and> py_getitem st' ''total_images_scraped'' = py_getitem st ''total_images_scraped''"
  using bump_daily_Inr [of d st n st'] by auto

lemma merge_into_state_pending_key:
  assumes "merge_into_state d its st = (out, st')"
  shows "(st' = st \<and> (\<forall>k. out \<noteq> Completed k))
         \<or> (\<exists>seen. existing_paths_of st = Inr seen
               \<and> py_getitem st' ''pending_uploads''
                   = py_getitem (fst (merge_pending its st seen 0)) ''pending_uploads''
               \<and> (\<forall>k. out = Completed k \<longrightarrow> snd (merge_pending its st seen 0) = Inr k))"
proof (cases "\<exists>k. out = Completed k")
  case True
  then obtain k where k: "out = Completed k" by blast
  from merge_into_state_Completed [OF assms [unfolded k]] obtain seen st1 st2 st3 where
    "existing_paths_of st = Inr seen" "merge_pending its st seen 0 = (st1, Inr k)"
    "add_total st1 k = Inr st2" "init_daily d st2 = Inr st3" "bump_daily d st3 k = Inr st'"
    by blast
  with k show ?thesis
    using add_total_keeps [of st1 k st2] init_daily_keeps [of d st2 st3]
      bump_daily_keeps [of d st3 k st']
    by auto
next
  case False
  then have n: "\<forall>k. out \<noteq> Completed k" by blast
  from merge_into_state_Raised [OF assms n]
  consider "st' = st"
    | seen r where "existing_paths_of st = Inr seen" "merge_pending its st seen 0 = (st', r)"
    | seen st1 k st2 where "existing_paths_of st = Inr seen"
        "merge_pending its st seen 0 = (st1, Inr k)" "add_total st1 k = Inr st2"
        "st' = st2 \<or> init_daily d st2 = Inr st'"
    by blast
  then show ?thesis
  proof cases
    case 1
    with n show ?thesis by simp
  next
    case 2
    with n show ?thesis by simp
  next
    case 3
    with n show ?thesis
      using add_total_keeps [of st1 k st2] init_daily_keeps [of d st2 st'] by auto
  qed
qed

lemma merge_into_state_pending:
  assumes "merge_into_state d its st = (out, st')"
  shows "\<exists>added. pending_uploads st' = pending_uploads st @ map item_json added
           \<and> set added \<subseteq> set its
           \<and> distinct (map file_path added)
           \<and> (\<forall>it \<in> set added. JStr (file_path it) \<notin> set (pending_uris st))
           \<and> (\<forall>k. out = Completed k \<longrightarrow> k = int (length added))"
proof -
  from merge_into_state_pending_key [OF assms]
  consider (same) "st' = st" "\<forall>k. out \<noteq> Completed k"
    | (merged) seen where "existing_paths_of st = Inr seen"
        "py_getitem st' ''pending_uploads''
           = py_getitem (fst (merge_pending its st seen 0)) ''pending_uploads''"
        "\<forall>k. out = Completed k \<longrightarrow> snd (merge_pending its st seen 0) = Inr k"
    by blast
  then show ?thesis
  proof cases
    case same
    then show ?thesis by (intro exI [of _ "[]"]) simp
  next
    case merged
    show ?thesis
    proof (cases "\<exists>xs. py_getitem st ''pending_uploads'' = Inr (JArr xs)")
      case True
      then obtain xs where xs: "py_getitem st ''pending_uploads'' = Inr (JArr xs)" by blast
      let ?new = "fresh_items its seen"
      from merge_pending_list [OF xs, of its seen 0] obtain st1 where
        m: "merge_pending its st seen 0 = (st1, Inr (int (length ?new)))"
        and g: "py_getitem st1 ''pending_uploads'' = Inr (JArr (xs @ map item_json ?new))"
        by auto
      from merged(2) m g have "pending_uploads st' = xs @ map item_json ?new"
        by (simp add: pending_uploads_def)
      moreover from xs have "pending_uploads st = xs" by (simp add: pending_uploads_def)
      moreover have "seen = set (pending_uris st)"
        using existing_paths_of_list [OF xs merged(1)] .
      moreover from merged(3) m have "\<forall>k. out = Completed k \<longrightarrow> k = int (length ?new)"
        by simp
      ultimately show ?thesis
        using fresh_items_distinct [of its seen] by (intro exI [of _ ?new]) simp
    next
      case False
      from merge_pending_not_list [OF False, of its seen 0] have
        f: "fst (merge_pending its st seen 0) = st"
        and k: "\<forall>k. snd (merge_pending its st seen 0) = Inr k \<longrightarrow> k = 0"
        by auto
      from merged(2) f have "pending_uploads st' = pending_uploads st"
        by (simp add: pending_uploads_def)
      with merged(3) k show ?thesis by (intro exI [of _ "[]"]) auto
    qed
  qed
qed

lemma entry_uri_item_json: "entry_uri (item_json it) = Some (JStr (file_path it))"
  by (simp add: item_json_def)

lemma map_filter_append:
  "List.map_filter f (xs @ ys) = List.map_filter f xs @ List.map_filter f ys"
  by (simp add: List.map_filter_def)

lemma merge_into_state_no_duplicates:
  assumes "merge_into_state d its st = (out, st')" and "no_duplicate_uris st"
  shows "no_duplicate_uris st'"
proof -
  from merge_into_state_pending [OF assms(1)] obtain added where
    p: "pending_uploads st' = pending_uploads st @ map item_json added"
    and d: "distinct (map file_path added)"
    and n: "\<forall>it \<in> set added. JStr (file_path it) \<notin> set (pending_uris st)"
    by blast
  have "List.map_filter entry_uri (map item_json added) = map (\<lambda>it. JStr (file_path it)) added"
    by (induction added) (simp_all add: List.map_filter_simps entry_uri_item_json)
  with p have u: "pending_uris st' = pending_uris st @ map (\<lambda>it. JStr (file_path it)) added"
    by (simp add: pending_uris_def map_filter_append)
  from d have "distinct (map (\<lambda>it. JStr (file_path it)) added)"
    by (simp add: distinct_map inj_on_def)
  with assms(2) n show ?thesis unfolding no_duplicate_uris_def u by auto
qed

text \<open>Loading the state, and what a run keeps.\<close>

lemma fill_defaults_non_dict:
  "fill_defaults items loaded = Inr st \<Longrightarrow> \<nexists>kvs. loaded = JObj kvs \<Longrightarrow> st = loaded"
proof (induction items arbitrary: loaded)
  case Nil
  then show ?case by simp
next
  case (Cons kv items)
  obtain key val where kv: "kv = (key, val)" by (cases kv)
  from Cons.prems(2) obtain e where s: "py_setitem loaded key val = Inl e"
    by (cases loaded) auto
  show ?case
  proof (cases "py_contains loaded key")
    case (Inl e')
    with Cons.prems(1) kv show ?thesis by simp
  next
    case (Inr c)
    show ?thesis
    proof (cases c)
      case True
      with Inr Cons.prems(1) kv have "fill_defaults items loaded = Inr st" by simp
      from Cons.IH [OF this Cons.prems(2)] show ?thesis .
    next
      case False
      with Inr Cons.prems(1) kv s show ?thesis by simp
    qed
  qed
qed

lemma fill_defaults_dict:
  "\<exists>kvs'. fill_defaults items (JObj kvs) = Inr (JObj kvs')
      \<and> (\<forall>k. map_of kvs' k = (case map_of kvs k of Some v \<Rightarrow> Some v | None \<Rightarrow> map_of items k))"
proof (induction items arbitrary: kvs)
  case Nil
  show ?case by (auto split: option.splits)
next
  case (Cons kv items)
  obtain key val where kv: "kv = (key, val)" by (cases kv)
  show ?case
  proof (cases "key \<in> set (map fst kvs)")
    case True
    then have k: "map_of kvs key \<noteq> None" by (simp add: map_of_eq_None_iff)
    from Cons [of kvs] obtain kvs' where
      f: "fill_defaults items (JObj kvs) = Inr (JObj kvs')"
      and m: "\<forall>k. map_of kvs' k = (case map_of kvs k of Some v \<Rightarrow> Some v | None \<Rightarrow> map_of items k)"
      by blast
    from f True kv have "fill_defaults (kv # items) (JObj kvs) = Inr (JObj kvs')" by simp
    moreover have "\<forall>k'. map_of kvs' k' =
        (case map_of kvs k' of Some v \<Rightarrow> Some v | None \<Rightarrow> map_of (kv # items) k')"
    proof
      fix k'
      show "map_of kvs' k' =
        (case map_of kvs k' of Some v \<Rightarrow> Some v | None \<Rightarrow> map_of (kv # items) k')"
        using m [rule_format, of k'] k kv by (cases "k' = key") (auto split: option.splits)
    qed
    ultimately show ?thesis by blast
  next
    case False
    then have k: "map_of kvs key = None" by (simp add: map_of_eq_None_iff)
    from Cons [of "dict_set key val kvs"] obtain kvs' where
      f: "fill_defaults items (JObj (dict_set key val kvs)) = Inr (JObj kvs')"
      and m: "\<forall>k. map_of kvs' k = (case map_of (dict_set key val kvs) k of
                   Some v \<Rightarrow> Some v | None \<Rightarrow> map_of items k)"
      by blast
    from f False kv have "fill_defaults (kv # items) (JObj kvs) = Inr (JObj kvs')" by simp
    moreover have "\<forall>k'. map_of kvs' k' =
        (case map_of kvs k' of Some v \<Rightarrow> Some v | None \<Rightarrow> map_of (kv # items) k')"
    proof
      fix k'
      show "map_of kvs' k' =
        (case map_of kvs k' of Some v \<Rightarrow> Some v | None \<Rightarrow> map_of (kv # items) k')"
        using m [rule_format, of k'] k kv
        by (cases "k' = key") (auto simp add: map_of_dict_set split: option.splits)
    qed
    ultimately show ?thesis by blast
  qed
qed

lemma fill_defaults_pending:
  assumes "fill_defaults default_items loaded = Inr st"
  shows "pending_uploads st = pending_uploads loaded"
proof (cases "\<exists>kvs. loaded = JObj kvs")
  case True
  then obtain kvs where l: "loaded = JObj kvs" by blast
  from fill_defaults_dict [of default_items kvs] assms l obtain kvs' where
    "st = JObj kvs'"
    "\<forall>k. map_of kvs' k = (case map_of kvs k of Some v \<Rightarrow> Some v | None \<Rightarrow> map_of default_items k)"
    by auto
  with l show ?thesis
    by (simp add: pending_uploads_def default_items_def split: option.splits)
next
  case False
  with fill_defaults_non_dict [OF assms] show ?thesis by simp
qed

lemma no_duplicate_uris_default: "no_duplicate_uris default_state"
  by (simp add: no_duplicate_uris_def pending_uris_def pending_uploads_def default_state_def)

lemma load_agent_state_no_duplicates:
  assumes "stored_no_duplicates (state_file w)"
  shows "no_duplicate_uris (load_agent_state w)"
proof (cases "state_file w")
  case None
  then show ?thesis by (simp add: load_agent_state_def no_duplicate_uris_default)
next
  case (Some f)
  show ?thesis
  proof (cases f)
    case (Doc loaded)
    show ?thesis
    proof (cases "fill_defaults default_items loaded")
      case (Inl e)
      with Some Doc show ?thesis by (simp add: load_agent_state_def no_duplicate_uris_default)
    next
      case (Inr st)
      from fill_defaults_pending [OF Inr] assms Some Doc have "no_duplicate_uris st"
        by (simp add: no_duplicate_uris_def pending_uris_def)
      with Some Doc Inr show ?thesis by (simp add: load_agent_state_def)
    qed
  qed (use Some in \<open>simp_all add: load_agent_state_def no_duplicate_uris_default\<close>)
qed

lemma run_body_state:
  assumes "run_body L sc t st fs = (out, st', fs')"
  shows "(st' = st \<and> (\<forall>k. out \<noteq> Completed k))
         \<or> (\<exists>cands its. sc t fs = (Inr cands, fs') \<and> cands \<noteq> []
               \<and> make_pending_list L fs' cands = Inr its
               \<and> merge_into_state (now_date L) its st = (out, st'))"
  using assms
  by (auto simp add: run_body_def split: prod.splits sum.splits if_splits)

lemma run_body_no_duplicates:
  assumes "run_body L sc t st fs = (out, st', fs')" and "no_duplicate_uris st"
  shows "no_duplicate_uris st'"
  using run_body_state [OF assms(1)] assms(2) merge_into_state_no_duplicates by blast

lemma run_no_duplicates:
  assumes "no_duplicate_uris (state a)" and "stored_no_duplicates (state_file w)"
  shows "no_duplicate_uris (state (fst (run L a w)))
         \<and> stored_no_duplicates (state_file (snd (run L a w)))"
proof (cases "scraper a")
  case None
  with assms show ?thesis by (simp add: run_def)
next
  case (Some sc)
  obtain out st' fs' where
    b: "run_body L sc (daily_target a) (state a) (images w) = (out, st', fs')"
    by (cases "run_body L sc (daily_target a) (state a) (images w)")
  from run_body_no_duplicates [OF b assms(1)] have "no_duplicate_uris st'" .
  with Some b assms(2) show ?thesis by (simp add: run_def save_agent_state_def)
qed

text \<open>The queue entries a run builds, and the counters after a completed merge.\<close>

lemma make_pending_item_Inr:
  assumes "make_pending_item L fs c = Inr it"
  shows "\<exists>content. fs (cand_file_path c) = Some content
           \<and> file_path it = ''file://'' @ resolve L (cand_file_path c)
           \<and> public_id it = ''cheese-collection/'' @ stem (cand_file_path c) @ ''_''
                               @ take 8 (md5_hexdigest L content)
           \<and> item_tags it = join '','' (md_tags (cand_metadata c))
           \<and> item_context it = join ''|'' (map (\<lambda>(k, v). k @ ''='' @ v)
                                                (md_context (cand_metadata c)))"
  using assms by (auto simp add: make_pending_item_def Let_def split: option.splits)

lemma make_pending_list_items:
  "make_pending_list L fs cands = Inr its \<Longrightarrow>
     length its = length cands
     \<and> (\<forall>it \<in> set its. \<exists>c \<in> set cands. make_pending_item L fs c = Inr it)"
proof (induction cands arbitrary: its)
  case Nil
  then show ?case by simp
next
  case (Cons c cands)
  then show ?case by (auto split: sum.splits)
qed

lemma merge_into_state_counts:
  assumes "merge_into_state d its st = (Completed k, st')"
  shows "(\<exists>t. total_images_scraped st = Some t \<and> total_images_scraped st' = Some (t + k))
         \<and> (daily_bucket d st = None \<longrightarrow> daily_scraped d st' = Some k)
         \<and> (\<forall>b. daily_bucket d st = Some b \<longrightarrow>
               (\<exists>c. daily_scraped d st = Some c \<and> daily_scraped d st' = Some (c + k)))
         \<and> (\<forall>d'. d' \<noteq> d \<longrightarrow> daily_bucket d' st' = daily_bucket d' st)"
proof -
  from merge_into_state_Completed [OF assms] obtain seen st1 st2 st3 where
    m: "merge_pending its st seen 0 = (st1, Inr k)"
    and a: "add_total st1 k = Inr st2"
    and i: "init_daily d st2 = Inr st3"
    and b: "bump_daily d st3 k = Inr st'"
    by blast
  have k1: "\<And>key. key \<noteq> ''pending_uploads'' \<Longrightarrow> py_getitem st1 key = py_getitem st key"
    using merge_pending_other_keys [of _ its st seen 0] m by simp
  from add_total_Inr [OF a] obtain t where
    t: "total_images_scraped st1 = Some t"
    and t2: "py_getitem st2 ''total_images_scraped'' = Inr (JInt (t + k))"
    and o2: "\<forall>key. key \<noteq> ''total_images_scraped'' \<longrightarrow> py_getitem st2 key = py_getitem st1 key"
    by blast
  from t k1 have "total_images_scraped st = Some t"
    by (simp add: total_images_scraped_def)
  moreover from t2 init_daily_keeps [OF i] bump_daily_keeps [OF b]
  have "total_images_scraped st' = Some (t + k)"
    by (simp add: total_images_scraped_def)
  ultimately have total:
    "\<exists>t. total_images_scraped st = Some t \<and> total_images_scraped st' = Some (t + k)"
    by blast
  have d2: "py_getitem st2 ''daily_stats'' = py_getitem st ''daily_stats''"
    using o2 k1 by simp
  then have bk2: "\<And>x. daily_bucket x st2 = daily_bucket x st"
    and sc2: "\<And>x. daily_scraped x st2 = daily_scraped x st"
    by (simp_all add: daily_bucket_def daily_scraped_def)
  from init_daily_Inr [OF i] have
    i1: "\<forall>b. daily_bucket d st2 = Some b \<longrightarrow> st3 = st2"
    and i2: "daily_bucket d st2 = None \<longrightarrow>
               daily_bucket d st3 = None \<or> daily_bucket d st3 = Some (JObj [(''scraped'', JInt 0)])"
    and i3: "\<forall>d'. d' \<noteq> d \<longrightarrow> daily_bucket d' st3 = daily_bucket d' st2"
    by auto
  from bump_daily_Inr [OF b] obtain c where
    c3: "daily_scraped d st3 = Some c" and c4: "daily_scraped d st' = Some (c + k)"
    and b3: "\<forall>d'. d' \<noteq> d \<longrightarrow> daily_bucket d' st' = daily_bucket d' st3"
    by blast
  have absent: "daily_bucket d st = None \<longrightarrow> daily_scraped d st' = Some k"
  proof
    assume "daily_bucket d st = None"
    with bk2 i2 have "daily_bucket d st3 = None \<or> daily_bucket d st3 = Some (JObj [(''scraped'', JInt 0)])"
      by simp
    with c3 have "c = 0" by (auto simp add: daily_scraped_def)
    with c4 show "daily_scraped d st' = Some k" by simp
  qed
  have present: "\<forall>b. daily_bucket d st = Some b \<longrightarrow>
               (\<exists>c. daily_scraped d st = Some c \<and> daily_scraped d st' = Some (c + k))"
  proof (intro allI impI)
    fix b assume "daily_bucket d st = Some b"
    with bk2 i1 have "st3 = st2" by simp
    with c3 sc2 have "daily_scraped d st = Some c" by simp
    with c4 show "\<exists>c. daily_scraped d st = Some c \<and> daily_scraped d st' = Some (c + k)" by blast
  qed
  from i3 b3 bk2 have "\<forall>d'. d' \<noteq> d \<longrightarrow> daily_bucket d' st' = daily_bucket d' st" by simp
  with total absent present show ?thesis by blast
qed

lemma distinct_subset_length:
  assumes "distinct (map f xs)" and "set xs \<subseteq> set ys"
  shows "length xs \<le> length ys"
proof -
  from assms(1) have "distinct xs" by (simp add: distinct_map)
  then have "length xs = card (set xs)" by (simp add: distinct_card)
  also from assms(2) have "\<dots> \<le> card (set ys)" by (simp add: card_mono)
  also have "\<dots> \<le> length ys" by (rule card_length)
  finally show ?thesis .
qed

section \<open>The validator\<close>

lemma save_base64_image_path:
  "save_base64_image L b filename fs = (Some p, fs') \<Longrightarrow> p = output_dir @ ''/'' @ filename"
  by (auto simp add: save_base64_image_def Let_def split: option.splits if_splits prod.splits)

text \<open>
  Claim C5. A payload whose decoded body is longer than 10 MiB is rejected by
  \<^verbatim>\<open>save_base64_image\<close> and the files are exactly what they were: the size check comes
  before the write.
\<close>

theorem save_base64_image_size_ceiling:
  assumes "split_comma base64_data = Some (header, encoded)"
    and "b64decode L encoded = Some image_data"
    and "length image_data > 10 * 1024 * 1024"
  shows "save_base64_image L base64_data filename fs = (None, fs)"
  using assms by (simp add: save_base64_image_def max_file_size_def)

text \<open>An 11 MiB body, with no file before and none after.\<close>

theorem save_base64_image_size_ceiling_witness:
  "split_comma payload_large = Some (''data:image/jpeg;base64'', ''yMg='')
   \<and> b64decode big_libs ''yMg='' = Some (replicate (11 * 1024 * 1024) 0)
   \<and> length (replicate (11 * 1024 * 1024) (0 :: 8 word)) > 10 * 1024 * 1024
   \<and> save_base64_image big_libs payload_large ''blue_24fd64e7e4.jpg'' Map.empty
       = (None, Map.empty)"
proof -
  have s: "split_comma payload_large = Some (''data:image/jpeg;base64'', ''yMg='')"
    by (simp add: payload_large_def)
  have d: "b64decode big_libs ''yMg='' = Some (replicate (11 * 1024 * 1024) 0)"
    by (simp add: big_libs_def)
  have l: "length (replicate (11 * 1024 * 1024) (0 :: 8 word)) > 10 * 1024 * 1024"
    by simp
  from save_base64_image_size_ceiling [OF s d l] s d l show ?thesis by blast
qed

text \<open>
  Claim C6. When the payload decodes, fits the size limit and is written, the size PIL
  reads from the written file decides: with a width or a height below 100 the file is
  removed and the payload rejected, otherwise the file stays and its path is returned.
\<close>

theorem save_base64_image_dimension_floor:
  assumes "split_comma base64_data = Some (header, encoded)"
    and "b64decode L encoded = Some image_data"
    and "length image_data \<le> max_file_size"
    and "write_ok L (output_dir @ ''/'' @ filename)"
    and "image_size L image_data = Some (width, height)"
  shows "save_base64_image L base64_data filename fs =
           (if width < 100 \<or> height < 100
            then (None, (fs(output_dir @ ''/'' @ filename \<mapsto> image_data))
                           (output_dir @ ''/'' @ filename := None))
            else (Some (output_dir @ ''/'' @ filename),
                  fs(output_dir @ ''/'' @ filename \<mapsto> image_data)))"
  using assms
  by (simp add: save_base64_image_def Let_def min_width_def min_height_def)

text \<open>An image of 50 by 50 leaves no file; one of 200 by 200 is kept under its path.\<close>

theorem save_base64_image_dimension_floor_witness:
  "save_base64_image example_libs payload_small ''blue_5c23915b44.jpg'' Map.empty
     = (None, Map.empty)
   \<and> save_base64_image example_libs payload_large ''blue_24fd64e7e4.jpg'' Map.empty
     = (Some ''scraped_cheese_images/blue_24fd64e7e4.jpg'',
        [''scraped_cheese_images/blue_24fd64e7e4.jpg'' \<mapsto> [200, 200]])"
proof -
  have s1: "split_comma payload_small = Some (''data:image/jpeg;base64'', ''MjI='')"
    by (simp add: payload_small_def)
  have d1: "b64decode example_libs ''MjI='' = Some [50, 50]"
    by (simp add: example_libs_def)
  have l1: "length [50, 50 :: 8 word] \<le> max_file_size"
    by (simp add: max_file_size_def)
  have w1: "write_ok example_libs (output_dir @ ''/'' @ ''blue_5c23915b44.jpg'')"
    by (simp add: example_libs_def)
  have i1: "image_size example_libs [50, 50] = Some (50, 50)"
    by (simp add: example_libs_def)
  have s2: "split_comma payload_large = Some (''data:image/jpeg;base64'', ''yMg='')"
    by (simp add: payload_large_def)
  have d2: "b64decode example_libs ''yMg='' = Some [200, 200]"
    by (simp add: example_libs_def)
  have l2: "length [200, 200 :: 8 word] \<le> max_file_size"
    by (simp add: max_file_size_def)
  have w2: "write_ok example_libs (output_dir @ ''/'' @ ''blue_24fd64e7e4.jpg'')"
    by (simp add: example_libs_def)
  have i2: "image_size example_libs [200, 200] = Some (200, 200)"
    by (simp add: example_libs_def)
  from save_base64_image_dimension_floor [OF s1 d1 l1 w1 i1, of Map.empty]
       save_base64_image_dimension_floor [OF s2 d2 l2 w2 i2, of Map.empty]
  show ?thesis by (simp add: output_dir_def)
qed

text \<open>
  Claim C7, as the code has it. A payload with no comma, or with a body on which the decoder
  raises, is rejected by \<^verbatim>\<open>save_base64_image\<close> with the files exactly as they were. In
  the session such a payload adds no candidate and leaves the files alone; the session's
  \<^verbatim>\<open>processed_count\<close> goes up by one for it, as for every payload the loop takes up,
  since it is incremented before the validator is called.
\<close>

theorem save_base64_image_malformed:
  assumes "split_comma base64_data = None
           \<or> (\<exists>header encoded. split_comma base64_data = Some (header, encoded)
                  \<and> b64decode L encoded = None)"
  shows "save_base64_image L base64_data filename fs = (None, fs)
         \<and> candidates_found (process_payloads L m cheese_type [base64_data] s)
             = candidates_found s
         \<and> disk (process_payloads L m cheese_type [base64_data] s) = disk s
         \<and> processed_count (process_payloads L m cheese_type [base64_data] s)
             = (if int (length (candidates_found s)) \<ge> m then processed_count s
                else processed_count s + 1)"
proof -
  have r: "\<And>filename fs. save_base64_image L base64_data filename fs = (None, fs)"
    using assms by (auto simp add: save_base64_image_def)
  then show ?thesis by (simp add: Let_def)
qed

text \<open>A payload without a comma, taken up by the session, and one on whose body the decoder
  raises.\<close>

theorem save_base64_image_malformed_witness:
  "split_comma payload_no_comma = None
   \<and> save_base64_image example_libs payload_no_comma ''blue_ff4fe5192c.jpg'' Map.empty
       = (None, Map.empty)
   \<and> candidates_found (process_payloads example_libs 10 ''blue'' [payload_no_comma]
         \<lparr>candidates_found = [], processed_count = 0, disk = Map.empty\<rparr>) = []
   \<and> processed_count (process_payloads example_libs 10 ''blue'' [payload_no_comma]
         \<lparr>candidates_found = [], processed_count = 0, disk = Map.empty\<rparr>) = 1
   \<and> split_comma payload_bad_body = Some (''data:image/jpeg;base64'', ''A'')
   \<and> b64decode example_libs ''A'' = None
   \<and> save_base64_image example_libs payload_bad_body ''blue_ac74c06029.jpg'' Map.empty
       = (None, Map.empty)"
proof -
  let ?s0 = "\<lparr>candidates_found = [], processed_count = 0, disk = Map.empty\<rparr> :: session"
  have n: "split_comma payload_no_comma = None"
    by (simp add: payload_no_comma_def)
  have s: "split_comma payload_bad_body = Some (''data:image/jpeg;base64'', ''A'')"
    by (simp add: payload_bad_body_def)
  have d: "b64decode example_libs ''A'' = None"
    by (simp add: example_libs_def)
  have a: "split_comma payload_no_comma = None
           \<or> (\<exists>header encoded. split_comma payload_no_comma = Some (header, encoded)
                  \<and> b64decode example_libs encoded = None)"
    using n by simp
  have b: "split_comma payload_bad_body = None
           \<or> (\<exists>header encoded. split_comma payload_bad_body = Some (header, encoded)
                  \<and> b64decode example_libs encoded = None)"
    using s d by blast
  note t1 = save_base64_image_malformed [OF a, of "''blue_ff4fe5192c.jpg''" Map.empty 10
              "''blue''" ?s0]
  note t2 = save_base64_image_malformed [OF b, of "''blue_ac74c06029.jpg''" Map.empty 10
              "''blue''" ?s0]
  from t1 have 1: "save_base64_image example_libs payload_no_comma ''blue_ff4fe5192c.jpg''
                     Map.empty = (None, Map.empty)"
    and 2: "candidates_found (process_payloads example_libs 10 ''blue'' [payload_no_comma] ?s0)
              = []"
    and 3: "processed_count (process_payloads example_libs 10 ''blue'' [payload_no_comma] ?s0)
              = 1"
    by simp_all
  from t2 have 4: "save_base64_image example_libs payload_bad_body ''blue_ac74c06029.jpg''
                     Map.empty = (None, Map.empty)"
    by simp
  from n 1 2 3 s d 4 show ?thesis by simp
qed

text \<open>
  Claim C7 as the specification words it speaks of every body that is not valid base64 and
  of no counter being incremented. A body of four exclamation marks is not valid base64,
  yet the decoder returns no bytes for it instead of raising: an empty file is written, PIL
  cannot open it, and the file is there after the payload is rejected. And for the payload
  without a comma \<^verbatim>\<open>processed_count\<close> has gone from 0 to 1.
\<close>

theorem save_base64_image_malformed_counterexample:
  "split_comma payload_stray_chars = Some (''data:image/jpeg;base64'', ''!!!!'')
   \<and> \<not> spec_valid_base64 ''!!!!''
   \<and> b64decode example_libs ''!!!!'' = Some []
   \<and> image_size example_libs [] = None
   \<and> save_base64_image example_libs payload_stray_chars ''blue_1051693a66.jpg'' Map.empty
       = (None, [''scraped_cheese_images/blue_1051693a66.jpg'' \<mapsto> []])
   \<and> split_comma payload_no_comma = None
   \<and> processed_count (process_payloads example_libs 10 ''blue'' [payload_no_comma]
         \<lparr>candidates_found = [], processed_count = 0, disk = Map.empty\<rparr>) = 1"
proof -
  have 1: "split_comma payload_stray_chars = Some (''data:image/jpeg;base64'', ''!!!!'')"
    by (simp add: payload_stray_chars_def)
  have 2: "\<not> spec_valid_base64 ''!!!!''"
    by (simp add: spec_valid_base64_def base64_alphabet_def)
  have 3: "b64decode example_libs ''!!!!'' = Some []"
    and 4: "image_size example_libs [] = None"
    by (simp_all add: example_libs_def)
  have 5: "save_base64_image example_libs payload_stray_chars ''blue_1051693a66.jpg'' Map.empty
       = (None, [''scraped_cheese_images/blue_1051693a66.jpg'' \<mapsto> []])"
    by (simp add: save_base64_image_def 1 3 4 max_file_size_def output_dir_def Let_def)
       (simp add: example_libs_def)
  have 6: "split_comma payload_no_comma = None"
    by (simp add: payload_no_comma_def)
  have 7: "processed_count (process_payloads example_libs 10 ''blue'' [payload_no_comma]
         \<lparr>candidates_found = [], processed_count = 0, disk = Map.empty\<rparr>) = 1"
    by (simp add: save_base64_image_def 6 Let_def)
  from 1 2 3 4 5 6 7 show ?thesis by simp
qed

section \<open>The discovery session\<close>

text \<open>Every candidate the inner loop adds comes from one of the payloads it was given.\<close>

lemma process_payloads_candidates:
  "\<forall>c \<in> set (candidates_found s). P c \<Longrightarrow>
   \<forall>c \<in> set (candidates_found (process_payloads L m ct bs s)).
      P c \<or> (\<exists>b \<in> set bs. cand_cheese_type c = ct
                 \<and> cand_id c = candidate_filename L ct b
                 \<and> cand_file_path c = output_dir @ ''/'' @ cand_id c)"
proof (induction bs arbitrary: s P)
  case Nil
  then show ?case by simp
next
  case (Cons b bs)
  show ?case
  proof (cases "int (length (candidates_found s)) \<ge> m")
    case True
    with Cons.prems show ?thesis by simp
  next
    case False
    obtain r fs' where sv: "save_base64_image L b (candidate_filename L ct b) (disk s) = (r, fs')"
      by (cases "save_base64_image L b (candidate_filename L ct b) (disk s)")
    show ?thesis
    proof (cases r)
      case None
      let ?s' = "s\<lparr>processed_count := processed_count s + 1, disk := fs'\<rparr>"
      have "\<forall>c \<in> set (candidates_found ?s'). P c" using Cons.prems by simp
      from Cons.IH [OF this] False sv None show ?thesis by (auto simp add: Let_def)
    next
      case (Some p)
      let ?c = "\<lparr>cand_id = candidate_filename L ct b, cand_file_path = p,
                  cand_cheese_type = ct, cand_metadata = analyze_image_content L p ct\<rparr>"
      let ?s' = "s\<lparr>processed_count := processed_count s + 1, disk := fs',
                   candidates_found := candidates_found s @ [?c]\<rparr>"
      let ?Q = "\<lambda>c. P c \<or> c = ?c"
      have p: "p = output_dir @ ''/'' @ candidate_filename L ct b"
        using sv Some save_base64_image_path by blast
      have "\<forall>c \<in> set (candidates_found ?s'). ?Q c" using Cons.prems by auto
      from Cons.IH [OF this] have
        "\<forall>c \<in> set (candidates_found (process_payloads L m ct bs ?s')).
           ?Q c \<or> (\<exists>b \<in> set bs. cand_cheese_type c = ct
                 \<and> cand_id c = candidate_filename L ct b
                 \<and> cand_file_path c = output_dir @ ''/'' @ cand_id c)" .
      moreover have "process_payloads L m ct (b # bs) s = process_payloads L m ct bs ?s'"
        using False sv Some by (simp add: Let_def)
      ultimately show ?thesis using p by auto
    qed
  qed
qed

lemma search_categories_candidates:
  "\<forall>c \<in> set (candidates_found s). P c \<Longrightarrow>
   \<forall>c \<in> set (candidates_found (search_categories L m cts s)).
      P c \<or> (\<exists>ct \<in> set cts. \<exists>b \<in> set (scrape_image_data L (get_search_url ct)
                                          (m div int (length cheese_types) + 1)).
                 cand_cheese_type c = ct
                 \<and> cand_id c = candidate_filename L ct b
                 \<and> cand_file_path c = output_dir @ ''/'' @ cand_id c)"
proof (induction cts arbitrary: s P)
  case Nil
  then show ?case by simp
next
  case (Cons ct cts)
  let ?bs = "scrape_image_data L (get_search_url ct) (m div int (length cheese_types) + 1)"
  let ?s' = "process_payloads L m ct ?bs s"
  let ?Q = "\<lambda>c. P c \<or> (\<exists>b \<in> set ?bs. cand_cheese_type c = ct
                 \<and> cand_id c = candidate_filename L ct b
                 \<and> cand_file_path c = output_dir @ ''/'' @ cand_id c)"
  have q: "\<forall>c \<in> set (candidates_found ?s'). ?Q c"
    using process_payloads_candidates [OF Cons.prems] .
  show ?case
  proof (cases "int (length (candidates_found s)) \<ge> m")
    case True
    with Cons.prems show ?thesis by simp
  next
    case False
    show ?thesis
    proof (cases "int (length (candidates_found ?s')) \<ge> m")
      case True
      with False have "search_categories L m (ct # cts) s = ?s'" by (simp add: Let_def)
      with q show ?thesis by auto
    next
      case f2: False
      with False have e: "search_categories L m (ct # cts) s = search_categories L m cts ?s'"
        by (simp add: Let_def)
      from Cons.IH [of ?s' ?Q, OF q] show ?thesis unfolding e by auto
    qed
  qed
qed

text \<open>The example environment, evaluated: the search URLs, the one page that has images,
  the file names and what the validator does with the two payloads.\<close>

lemma example_urls:
  "get_search_url ''semi soft'' = ''https://www.google.com/search?q=semi+soft+cheese&tbm=isch&as_st=y&imgtype=photo&tbs=sur%3Acl''"
  "get_search_url ''bloomy'' = ''https://www.google.com/search?q=bloomy+cheese&tbm=isch&as_st=y&imgtype=photo&tbs=sur%3Acl''"
  "get_search_url ''blue'' = ''https://www.google.com/search?q=blue+cheese&tbm=isch&as_st=y&imgtype=photo&tbs=sur%3Acl''"
  "get_search_url ''hard'' = ''https://www.google.com/search?q=hard+cheese&tbm=isch&as_st=y&imgtype=photo&tbs=sur%3Acl''"
  "get_search_url ''washed rind'' = ''https://www.google.com/search?q=washed+rind+cheese&tbm=isch&as_st=y&imgtype=photo&tbs=sur%3Acl''"
  "get_search_url ''fresh'' = ''https://www.google.com/search?q=fresh+cheese&tbm=isch&as_st=y&imgtype=photo&tbs=sur%3Acl''"
  by (simp_all add: get_search_url_def urlencode_def quote_plus_def quote_char_def
        url_safe_def hex_digit_def)

lemma example_pages:
  "scrape_image_data example_libs (get_search_url ''semi soft'') 2 = [payload_large, payload_small]"
  "scrape_image_data example_libs (get_search_url ''bloomy'') 2 = []"
  "scrape_image_data example_libs (get_search_url ''blue'') 2 = []"
  "scrape_image_data example_libs (get_search_url ''hard'') 2 = []"
  "scrape_image_data example_libs (get_search_url ''washed rind'') 2 = []"
  "scrape_image_data example_libs (get_search_url ''fresh'') 2 = []"
  by (simp_all add: example_urls scrape_image_data_def example_libs_def slice_to_def
        payload_large_def payload_small_def)

lemma example_filenames:
  "candidate_filename example_libs ''semi soft'' payload_large = ''semi_soft_24fd64e7e4.jpg''"
  "candidate_filename example_libs ''semi soft'' payload_small = ''semi_soft_5c23915b44.jpg''"
  by (simp_all add: candidate_filename_def example_libs_def replace_spaces_def
        payload_large_def payload_small_def encode_def)

lemma example_saves:
  "save_base64_image example_libs payload_large ''semi_soft_24fd64e7e4.jpg'' fs =
     (Some ''scraped_cheese_images/semi_soft_24fd64e7e4.jpg'',
      fs(''scraped_cheese_images/semi_soft_24fd64e7e4.jpg'' \<mapsto> [200, 200]))"
  "save_base64_image example_libs payload_small ''semi_soft_5c23915b44.jpg'' fs =
     (None, (fs(''scraped_cheese_images/semi_soft_5c23915b44.jpg'' \<mapsto> [50, 50]))
               (''scraped_cheese_images/semi_soft_5c23915b44.jpg'' := None))"
  by (simp_all add: save_base64_image_def example_libs_def payload_large_def
        payload_small_def max_file_size_def min_width_def min_height_def output_dir_def Let_def)

lemma example_session:
  "find_and_download_candidates example_libs 10 Map.empty =
     ([\<lparr>cand_id = ''semi_soft_24fd64e7e4.jpg'',
        cand_file_path = ''scraped_cheese_images/semi_soft_24fd64e7e4.jpg'',
        cand_cheese_type = ''semi soft'',
        cand_metadata = \<lparr>md_tags = [''cheese'', ''semi soft''],
                         md_context = [(''source'', ''google-images''),
                                       (''license'', ''creative-commons''),
                                       (''scrape_date'', ''2025-06-01'')]\<rparr>\<rparr>],
      [''scraped_cheese_images/semi_soft_24fd64e7e4.jpg'' \<mapsto> [200, 200]])"
  by (simp add: find_and_download_candidates_def cheese_types_def example_pages
        example_filenames example_saves Let_def analyze_image_content_def)
    (simp add: example_libs_def fun_eq_iff)

text \<open>
  Claim C8, as the code has it. The file name of a payload is the category with every space
  replaced by an underscore, an underscore, the first 10 characters of the MD5 hex digest
  of the payload string, and \<open>.jpg\<close>. Every candidate a session returns carries such a
  name, for a category of the list and a payload scraped for it, and its file lies under the
  output directory by that name. A payload the validator rejects is skipped and the loop
  goes on with the rest.
\<close>

theorem candidate_filenames:
  "(\<forall>c \<in> set (fst (find_and_download_candidates L m fs)).
      \<exists>ct \<in> set cheese_types.
      \<exists>b \<in> set (scrape_image_data L (get_search_url ct) (m div int (length cheese_types) + 1)).
         cand_cheese_type c = ct
         \<and> cand_id c = map (\<lambda>x. if x = CHR '' '' then CHR ''_'' else x) ct @ ''_''
                          @ take 10 (md5_hexdigest L (encode b)) @ ''.jpg''
         \<and> cand_file_path c = ''scraped_cheese_images/'' @ cand_id c)
   \<and> (int (length (candidates_found s)) < m \<longrightarrow>
        save_base64_image L b'
          (map (\<lambda>x. if x = CHR '' '' then CHR ''_'' else x) ct' @ ''_''
             @ take 10 (md5_hexdigest L (encode b')) @ ''.jpg'') (disk s) = (None, fs') \<longrightarrow>
        process_payloads L m ct' (b' # rest) s =
          process_payloads L m ct' rest (s\<lparr>processed_count := processed_count s + 1,
                                             disk := fs'\<rparr>))"
proof -
  let ?s0 = "\<lparr>candidates_found = [], processed_count = 0, disk = fs\<rparr>"
  have "\<forall>c \<in> set (candidates_found ?s0). False" by simp
  from search_categories_candidates [OF this, of L m cheese_types]
  have a: "\<forall>c \<in> set (fst (find_and_download_candidates L m fs)).
      \<exists>ct \<in> set cheese_types.
      \<exists>b \<in> set (scrape_image_data L (get_search_url ct) (m div int (length cheese_types) + 1)).
         cand_cheese_type c = ct
         \<and> cand_id c = candidate_filename L ct b
         \<and> cand_file_path c = output_dir @ ''/'' @ cand_id c"
    by (simp add: find_and_download_candidates_def Let_def)
  have f: "\<And>ct b. candidate_filename L ct b =
             map (\<lambda>x. if x = CHR '' '' then CHR ''_'' else x) ct @ ''_''
               @ take 10 (md5_hexdigest L (encode b)) @ ''.jpg''"
    by (simp add: candidate_filename_def replace_spaces_def)
  have o: "\<And>x. output_dir @ ''/'' @ x = ''scraped_cheese_images/'' @ x"
    by (simp add: output_dir_def)
  from a have "\<forall>c \<in> set (fst (find_and_download_candidates L m fs)).
      \<exists>ct \<in> set cheese_types.
      \<exists>b \<in> set (scrape_image_data L (get_search_url ct) (m div int (length cheese_types) + 1)).
         cand_cheese_type c = ct
         \<and> cand_id c = map (\<lambda>x. if x = CHR '' '' then CHR ''_'' else x) ct @ ''_''
                          @ take 10 (md5_hexdigest L (encode b)) @ ''.jpg''
         \<and> cand_file_path c = ''scraped_cheese_images/'' @ cand_id c"
    unfolding f o .
  moreover have "int (length (candidates_found s)) < m \<longrightarrow>
        save_base64_image L b'
          (map (\<lambda>x. if x = CHR '' '' then CHR ''_'' else x) ct' @ ''_''
             @ take 10 (md5_hexdigest L (encode b')) @ ''.jpg'') (disk s) = (None, fs') \<longrightarrow>
        process_payloads L m ct' (b' # rest) s =
          process_payloads L m ct' rest (s\<lparr>processed_count := processed_count s + 1,
                                             disk := fs'\<rparr>)"
  proof (intro impI)
    assume lt: "int (length (candidates_found s)) < m"
    assume "save_base64_image L b'
          (map (\<lambda>x. if x = CHR '' '' then CHR ''_'' else x) ct' @ ''_''
             @ take 10 (md5_hexdigest L (encode b')) @ ''.jpg'') (disk s) = (None, fs')"
    then have "save_base64_image L b' (candidate_filename L ct' b') (disk s) = (None, fs')"
      by (simp only: f)
    with lt show "process_payloads L m ct' (b' # rest) s =
          process_payloads L m ct' rest (s\<lparr>processed_count := processed_count s + 1,
                                             disk := fs'\<rparr>)"
      by (simp add: Let_def)
  qed
  ultimately show ?thesis by blast
qed

text \<open>The example session: the page of the first category yields two payloads, the
  first is kept under its file name, the second (50 by 50) is rejected and skipped.\<close>

theorem candidate_filenames_witness:
  "map cand_id (fst (find_and_download_candidates example_libs 10 Map.empty))
     = [''semi_soft_24fd64e7e4.jpg'']
   \<and> candidate1 \<in> set (fst (find_and_download_candidates example_libs 10 Map.empty))
   \<and> (\<exists>ct \<in> set cheese_types.
        \<exists>b \<in> set (scrape_image_data example_libs (get_search_url ct)
                     (10 div int (length cheese_types) + 1)).
          cand_cheese_type candidate1 = ct
          \<and> cand_id candidate1 = map (\<lambda>x. if x = CHR '' '' then CHR ''_'' else x) ct @ ''_''
                           @ take 10 (md5_hexdigest example_libs (encode b)) @ ''.jpg''
          \<and> cand_file_path candidate1 = ''scraped_cheese_images/'' @ cand_id candidate1)
   \<and> int (length (candidates_found
                     \<lparr>candidates_found = [], processed_count = 0, disk = Map.empty\<rparr>)) < 10
   \<and> save_base64_image example_libs payload_small ''semi_soft_5c23915b44.jpg'' Map.empty
       = (None, Map.empty)
   \<and> process_payloads example_libs 10 ''semi soft'' [payload_small, payload_large]
         \<lparr>candidates_found = [], processed_count = 0, disk = Map.empty\<rparr>
       = process_payloads example_libs 10 ''semi soft'' [payload_large]
           \<lparr>candidates_found = [], processed_count = 1, disk = Map.empty\<rparr>"
proof -
  let ?s0 = "\<lparr>candidates_found = [], processed_count = 0, disk = Map.empty\<rparr> :: session"
  have n: "map cand_id (fst (find_and_download_candidates example_libs 10 Map.empty))
             = [''semi_soft_24fd64e7e4.jpg'']"
    by (simp add: example_session)
  have c: "candidate1 \<in> set (fst (find_and_download_candidates example_libs 10 Map.empty))"
    by (simp add: example_session candidate1_def)
  have l: "int (length (candidates_found ?s0)) < 10" by simp
  have sv: "save_base64_image example_libs payload_small ''semi_soft_5c23915b44.jpg'' Map.empty
              = (None, Map.empty)"
    by (simp add: example_saves)
  have fn: "map (\<lambda>x. if x = CHR '' '' then CHR ''_'' else x) ''semi soft'' @ ''_''
             @ take 10 (md5_hexdigest example_libs (encode payload_small)) @ ''.jpg''
            = ''semi_soft_5c23915b44.jpg''"
    using example_filenames(2) by (simp add: candidate_filename_def replace_spaces_def)
  note t = candidate_filenames [of example_libs 10 Map.empty ?s0 payload_small
             "''semi soft''" Map.empty "[payload_large]"]
  from t have t1: "\<forall>c \<in> set (fst (find_and_download_candidates example_libs 10 Map.empty)).
        \<exists>ct \<in> set cheese_types.
        \<exists>b \<in> set (scrape_image_data example_libs (get_search_url ct)
                     (10 div int (length cheese_types) + 1)).
          cand_cheese_type c = ct
          \<and> cand_id c = map (\<lambda>x. if x = CHR '' '' then CHR ''_'' else x) ct @ ''_''
                           @ take 10 (md5_hexdigest example_libs (encode b)) @ ''.jpg''
          \<and> cand_file_path c = ''scraped_cheese_images/'' @ cand_id c"
    by (rule conjunct1)
  from t have t2: "int (length (candidates_found ?s0)) < 10 \<longrightarrow>
        save_base64_image example_libs payload_small
          (map (\<lambda>x. if x = CHR '' '' then CHR ''_'' else x) ''semi soft'' @ ''_''
             @ take 10 (md5_hexdigest example_libs (encode payload_small)) @ ''.jpg'') (disk ?s0)
          = (None, Map.empty) \<longrightarrow>
        process_payloads example_libs 10 ''semi soft'' (payload_small # [payload_large]) ?s0 =
          process_payloads example_libs 10 ''semi soft'' [payload_large]
            (?s0\<lparr>processed_count := processed_count ?s0 + 1, disk := Map.empty\<rparr>)"
    by (rule conjunct2)
  have p: "process_payloads example_libs 10 ''semi soft'' [payload_small, payload_large] ?s0
       = process_payloads example_libs 10 ''semi soft'' [payload_large]
           \<lparr>candidates_found = [], processed_count = 1, disk = Map.empty\<rparr>"
    using t2 l sv unfolding fn by simp
  from t1 [rule_format, OF c] n c l sv p show ?thesis by blast
qed

text \<open>
  Claim C8 as the specification words it has the category name itself in front of the
  underscore. For the category \<open>semi soft\<close> the code writes \<open>semi_soft_\<close>, not
  \<open>semi soft_\<close>.
\<close>

theorem candidate_filename_counterexample:
  "cheese_types ! 0 = ''semi soft''
   \<and> candidate_filename example_libs ''semi soft'' payload_large = ''semi_soft_24fd64e7e4.jpg''
   \<and> candidate_filename example_libs ''semi soft'' payload_large
       \<noteq> ''semi soft'' @ ''_'' @ take 10 (md5_hexdigest example_libs (encode payload_large)) @ ''.jpg''
   \<and> map cand_id (fst (find_and_download_candidates example_libs 10 Map.empty))
       = [''semi_soft_24fd64e7e4.jpg'']"
  by (simp add: example_session example_filenames cheese_types_def)

section \<open>The example run\<close>

text \<open>The example environment, run from the empty world, run again, and run on a state whose
  counter is not a number.\<close>

lemma example_session_empty:
  "find_and_download_candidates example_libs 10 Map.empty = ([candidate1], images1)"
  by (simp add: example_session) (simp add: candidate1_def images1_def)

lemma example_session_again:
  "find_and_download_candidates example_libs 10 images1 = ([candidate1], images1)"
  unfolding images1_def candidate1_def
  by (simp add: find_and_download_candidates_def cheese_types_def example_pages
        example_filenames example_saves Let_def analyze_image_content_def)
    (simp add: example_libs_def fun_eq_iff)

lemma example_now: "now_date example_libs = ''2025-06-01''"
  by (simp add: example_libs_def)

lemma example_pending_item:
  "make_pending_item example_libs images1 candidate1 = Inr item1"
  by (simp add: make_pending_item_def images1_def example_libs_def candidate1_def item1_def
        stem_def path_name_def Let_def)

lemma example_item_json: "item_json item1 = entry1"
  by (simp add: item_json_def item1_def entry1_def)

lemma example_merge_first:
  "merge_into_state ''2025-06-01'' [item1] default_state = (Completed 1, state1)"
  by (simp add: merge_into_state_def existing_paths_of_def default_state_def example_item_json
        add_total_def init_daily_def bump_daily_def state1_def)

lemma example_merge_second:
  "merge_into_state ''2025-06-01'' [item1] state1 = (Completed 0, state1)"
  by (simp add: merge_into_state_def existing_paths_of_def state1_def entry1_def item1_def
        add_total_def init_daily_def bump_daily_def)


lemma example_run_body_first:
  "run_body example_libs (CheeseScraper example_libs) 10 default_state Map.empty
     = (Completed 1, state1, images1)"
  by (simp add: run_body_def CheeseScraper_def example_session_empty example_pending_item
        example_now example_merge_first)

lemma example_run_body_second:
  "run_body example_libs (CheeseScraper example_libs) 10 state1 images1
     = (Completed 0, state1, images1)"
  by (simp add: run_body_def CheeseScraper_def example_session_again example_pending_item
        example_now example_merge_second)





lemma example_agent0:
  "CheeseScrapingAgent example_libs world0
     = \<lparr>state = default_state, scraper = Some (CheeseScraper example_libs), daily_target = 10\<rparr>"
  by (simp add: CheeseScrapingAgent_def load_agent_state_def world0_def example_libs_def)

lemma example_run_first:
  "run example_libs
     \<lparr>state = default_state, scraper = Some (CheeseScraper example_libs), daily_target = 10\<rparr>
     world0
   = (\<lparr>state = state1, scraper = Some (CheeseScraper example_libs), daily_target = 10\<rparr>,
      \<lparr>state_file = Some (Doc state1), state_file_writable = True, images = images1\<rparr>)"
  by (simp add: run_def world0_def example_run_body_first save_agent_state_def)

lemma example_run_second:
  "run example_libs
     \<lparr>state = state1, scraper = Some (CheeseScraper example_libs), daily_target = 10\<rparr>
     \<lparr>state_file = Some (Doc state1), state_file_writable = True, images = images1\<rparr>
   = (\<lparr>state = state1, scraper = Some (CheeseScraper example_libs), daily_target = 10\<rparr>,
      \<lparr>state_file = Some (Doc state1), state_file_writable = True, images = images1\<rparr>)"
  by (simp add: run_def example_run_body_second save_agent_state_def)

lemma example_restart:
  "CheeseScrapingAgent example_libs
     \<lparr>state_file = Some (Doc state1), state_file_writable = True, images = images1\<rparr>
   = \<lparr>state = state1, scraper = Some (CheeseScraper example_libs), daily_target = 10\<rparr>"
  by (simp add: CheeseScrapingAgent_def load_agent_state_def default_items_def state1_def
        example_libs_def)

section \<open>Loading the state\<close>

text \<open>
  Claim C10. When the state file exists but cannot be opened or is not JSON,
  \<^verbatim>\<open>load_agent_state\<close> returns the whole default state, whatever the file held. The
  defaults fill single missing keys only when the file parses: of a parsed object every key
  keeps its value and each missing default key gets its default.
\<close>

theorem load_agent_state_corrupt:
  "(state_file w = Some Unreadable \<or> state_file w = Some Malformed
      \<longrightarrow> load_agent_state w = default_state)
   \<and> (state_file w = Some (Doc (JObj kvs)) \<longrightarrow>
        (\<forall>k. py_getitem (load_agent_state w) k =
              (case map_of kvs k of
                 Some v \<Rightarrow> Inr v
               | None \<Rightarrow> (case map_of default_items k of
                             Some d \<Rightarrow> Inr d
                           | None \<Rightarrow> Inl KeyError))))"
proof -
  have "state_file w = Some (Doc (JObj kvs)) \<longrightarrow>
        (\<forall>k. py_getitem (load_agent_state w) k =
              (case map_of kvs k of
                 Some v \<Rightarrow> Inr v
               | None \<Rightarrow> (case map_of default_items k of
                             Some d \<Rightarrow> Inr d
                           | None \<Rightarrow> Inl KeyError)))"
  proof (intro impI allI)
    fix k
    assume f: "state_file w = Some (Doc (JObj kvs))"
    from fill_defaults_dict [of default_items kvs] obtain kvs' where
      d: "fill_defaults default_items (JObj kvs) = Inr (JObj kvs')"
      and m: "\<forall>k. map_of kvs' k =
                (case map_of kvs k of Some v \<Rightarrow> Some v | None \<Rightarrow> map_of default_items k)"
      by blast
    from f d have "load_agent_state w = JObj kvs'" by (simp add: load_agent_state_def)
    with m [rule_format, of k] show "py_getitem (load_agent_state w) k =
              (case map_of kvs k of
                 Some v \<Rightarrow> Inr v
               | None \<Rightarrow> (case map_of default_items k of
                             Some d \<Rightarrow> Inr d
                           | None \<Rightarrow> Inl KeyError))"
      by (simp split: option.splits)
  qed
  moreover have "state_file w = Some Unreadable \<or> state_file w = Some Malformed
      \<longrightarrow> load_agent_state w = default_state"
    by (auto simp add: load_agent_state_def)
  ultimately show ?thesis by blast
qed

text \<open>A malformed file, an unreadable one, and a parsed object that only has the total.\<close>

theorem load_agent_state_corrupt_witness:
  "state_file (world0\<lparr>state_file := Some Malformed\<rparr>) = Some Malformed
   \<and> load_agent_state (world0\<lparr>state_file := Some Malformed\<rparr>) = default_state
   \<and> state_file (world0\<lparr>state_file := Some Unreadable\<rparr>) = Some Unreadable
   \<and> load_agent_state (world0\<lparr>state_file := Some Unreadable\<rparr>) = default_state
   \<and> state_file (world0\<lparr>state_file := Some (Doc (JObj [(''total_images_scraped'', JInt 7)]))\<rparr>)
       = Some (Doc (JObj [(''total_images_scraped'', JInt 7)]))
   \<and> py_getitem (load_agent_state
         (world0\<lparr>state_file := Some (Doc (JObj [(''total_images_scraped'', JInt 7)]))\<rparr>))
         ''total_images_scraped'' = Inr (JInt 7)
   \<and> py_getitem (load_agent_state
         (world0\<lparr>state_file := Some (Doc (JObj [(''total_images_scraped'', JInt 7)]))\<rparr>))
         ''pending_uploads'' = Inr (JArr [])"
proof -
  let ?m = "world0\<lparr>state_file := Some Malformed\<rparr>"
  let ?u = "world0\<lparr>state_file := Some Unreadable\<rparr>"
  let ?kvs = "[(''total_images_scraped'', JInt 7)]"
  let ?d = "world0\<lparr>state_file := Some (Doc (JObj ?kvs))\<rparr>"
  have m: "state_file ?m = Some Malformed" by simp
  have u: "state_file ?u = Some Unreadable" by simp
  have d: "state_file ?d = Some (Doc (JObj ?kvs))" by simp
  from load_agent_state_corrupt [of ?m] m have 1: "load_agent_state ?m = default_state" by blast
  from load_agent_state_corrupt [of ?u] u have 2: "load_agent_state ?u = default_state" by blast
  from load_agent_state_corrupt [of ?d ?kvs] d have
    3: "\<forall>k. py_getitem (load_agent_state ?d) k =
              (case map_of ?kvs k of
                 Some v \<Rightarrow> Inr v
               | None \<Rightarrow> (case map_of default_items k of
                             Some d \<Rightarrow> Inr d
                           | None \<Rightarrow> Inl KeyError))"
    by blast
  from 3 [rule_format, of "''total_images_scraped''"]
  have 4: "py_getitem (load_agent_state ?d) ''total_images_scraped'' = Inr (JInt 7)" by simp
  from 3 [rule_format, of "''pending_uploads''"]
  have 5: "py_getitem (load_agent_state ?d) ''pending_uploads'' = Inr (JArr [])"
    by (simp add: default_items_def)
  from m u d 1 2 4 5 show ?thesis by blast
qed

section \<open>The run\<close>

text \<open>
  Claim C3, as the code has it. Without a scraper \<^verbatim>\<open>run\<close> returns before the
  \<^verbatim>\<open>try\<close> block: the agent and the world, the state file included, are what they were.
  Nothing is saved. When the constructor of the scraper raises, the script as a whole
  leaves the world as it found it.
\<close>

theorem run_without_scraper:
  "(scraper a = None \<longrightarrow> run L a w = (a, w))
   \<and> (\<not> scraper_starts L \<longrightarrow>
        scraper (CheeseScrapingAgent L w) = None \<and> main L w = w)"
  by (simp add: run_def main_def CheeseScrapingAgent_def)

text \<open>The scraper cannot be constructed, in a world with no state file.\<close>

theorem run_without_scraper_witness:
  "\<not> scraper_starts no_scraper_libs
   \<and> scraper (CheeseScrapingAgent no_scraper_libs world0) = None
   \<and> run no_scraper_libs (CheeseScrapingAgent no_scraper_libs world0) world0
       = (CheeseScrapingAgent no_scraper_libs world0, world0)
   \<and> main no_scraper_libs world0 = world0"
proof -
  have n: "\<not> scraper_starts no_scraper_libs" by (simp add: no_scraper_libs_def)
  from run_without_scraper [of "CheeseScrapingAgent no_scraper_libs world0" no_scraper_libs world0]
    n show ?thesis by simp
qed

text \<open>
  Claim C3 as the specification words it has the unchanged state persisted all the same.
  With no scraper and no state file, the state file is still missing after the run,
  although it could be written: the loaded default state was not saved.
\<close>

theorem run_without_scraper_counterexample:
  "scraper (CheeseScrapingAgent no_scraper_libs world0) = None
   \<and> state (CheeseScrapingAgent no_scraper_libs world0) = default_state
   \<and> state_file_writable world0
   \<and> state_file (snd (run no_scraper_libs (CheeseScrapingAgent no_scraper_libs world0) world0))
       = None
   \<and> state_file (snd (run no_scraper_libs (CheeseScrapingAgent no_scraper_libs world0) world0))
       \<noteq> Some (Doc default_state)"
  by (simp add: run_def CheeseScrapingAgent_def no_scraper_libs_def world0_def
        load_agent_state_def)



text \<open>
  Claim C1. Take any history of calls of \<^verbatim>\<open>run\<close> and restarts of the script over one
  state file, each in an environment of its own, the first calls with any scraper object
  whatsoever. If the queue in memory and the queue in the file have no two entries with the
  same \<^verbatim>\<open>file_path\<close> at the start (as when there is no file yet), then neither has at
  the end.
\<close>

theorem pending_uploads_never_duplicated:
  assumes "no_duplicate_uris (state a)" and "stored_no_duplicates (state_file w)"
  shows "no_duplicate_uris (state (fst (exec steps (a, w))))
         \<and> stored_no_duplicates (state_file (snd (exec steps (a, w))))"
  using assms
proof (induction steps arbitrary: a w)
  case Nil
  then show ?case by simp
next
  case (Cons s steps)
  show ?case
  proof (cases s)
    case (Run L)
    from run_no_duplicates [OF Cons.prems, of L]
    have "no_duplicate_uris (state (fst (run L a w)))"
      "stored_no_duplicates (state_file (snd (run L a w)))" by simp_all
    from Cons.IH [OF this] Run show ?thesis by simp
  next
    case (Restart L)
    from load_agent_state_no_duplicates [OF Cons.prems(2)]
    have "no_duplicate_uris (state (CheeseScrapingAgent L w))"
      by (simp add: CheeseScrapingAgent_def)
    from Cons.IH [OF this Cons.prems(2)] Restart show ?thesis by simp
  qed
qed

text \<open>A run, a restart and two more runs in the example environment: the same image is
  found each time and queued once.\<close>

theorem pending_uploads_never_duplicated_witness:
  "no_duplicate_uris (state (CheeseScrapingAgent example_libs world0))
   \<and> stored_no_duplicates (state_file world0)
   \<and> state_file (snd (exec [Run example_libs, Restart example_libs, Run example_libs,
                             Run example_libs]
                        (CheeseScrapingAgent example_libs world0, world0)))
       = Some (Doc state1)
   \<and> pending_uris state1
       = [JStr ''file:///srv/agent/scraped_cheese_images/semi_soft_24fd64e7e4.jpg'']
   \<and> no_duplicate_uris state1"
proof -
  let ?steps = "[Run example_libs, Restart example_libs, Run example_libs, Run example_libs]"
  let ?a = "CheeseScrapingAgent example_libs world0"
  have a: "no_duplicate_uris (state ?a)"
    by (simp add: example_agent0 no_duplicate_uris_default)
  have w: "stored_no_duplicates (state_file world0)" by (simp add: world0_def)
  have e: "exec ?steps (?a, world0)
     = (\<lparr>state = state1, scraper = Some (CheeseScraper example_libs), daily_target = 10\<rparr>,
        \<lparr>state_file = Some (Doc state1), state_file_writable = True, images = images1\<rparr>)"
    by (simp add: example_agent0 example_run_first example_restart example_run_second)
  have u: "pending_uris state1
       = [JStr ''file:///srv/agent/scraped_cheese_images/semi_soft_24fd64e7e4.jpg'']"
    by (simp add: pending_uris_def pending_uploads_def state1_def entry1_def
          List.map_filter_simps)
  from pending_uploads_never_duplicated [OF a w, of ?steps] e
  have "no_duplicate_uris state1" by simp
  with a w e u show ?thesis by simp
qed

text \<open>
  Claim C2. When the body of a run reaches its end, with \<open>k\<close> the count it reports: the
  queue grew by exactly \<open>k\<close> entries, \<open>k\<close> is not negative and not more than the
  number of candidates discovered, the total is the old total plus \<open>k\<close> (so it did not
  decrease), and the counter of today is \<open>k\<close> when today had no bucket and the old
  counter plus \<open>k\<close> when it had one.
\<close>

theorem run_counts_added_entries:
  assumes "scraper a = Some sc"
    and "run_body L sc (daily_target a) (state a) (images w) = (Completed k, st', fs')"
  shows "state (fst (run L a w)) = st'
         \<and> 0 \<le> k
         \<and> (\<exists>added. pending_uploads st' = pending_uploads (state a) @ added
                \<and> int (length added) = k)
         \<and> (\<exists>cands. sc (daily_target a) (images w) = (Inr cands, fs')
                \<and> k \<le> int (length cands))
         \<and> (\<exists>t. total_images_scraped (state a) = Some t
                \<and> total_images_scraped st' = Some (t + k))
         \<and> (daily_bucket (now_date L) (state a) = None \<longrightarrow>
               daily_scraped (now_date L) st' = Some k)
         \<and> (\<forall>b. daily_bucket (now_date L) (state a) = Some b \<longrightarrow>
               (\<exists>c. daily_scraped (now_date L) (state a) = Some c
                  \<and> daily_scraped (now_date L) st' = Some (c + k)))"
proof -
  from run_body_state [OF assms(2)] obtain cands its where
    sc: "sc (daily_target a) (images w) = (Inr cands, fs')"
    and pl: "make_pending_list L fs' cands = Inr its"
    and m: "merge_into_state (now_date L) its (state a) = (Completed k, st')"
    by auto
  from merge_into_state_pending [OF m] obtain added where
    p: "pending_uploads st' = pending_uploads (state a) @ map item_json added"
    and sub: "set added \<subseteq> set its"
    and d: "distinct (map file_path added)"
    and k: "k = int (length added)"
    by blast
  from distinct_subset_length [OF d sub] make_pending_list_items [OF pl]
  have le: "k \<le> int (length cands)" using k by simp
  have s: "state (fst (run L a w)) = st'"
    using assms by (simp add: run_def)
  have a: "\<exists>added. pending_uploads st' = pending_uploads (state a) @ added
                \<and> int (length added) = k"
    using p k by (intro exI [of _ "map item_json added"]) simp
  have c: "\<exists>cands. sc (daily_target a) (images w) = (Inr cands, fs')
                \<and> k \<le> int (length cands)"
    using sc le by blast
  from merge_into_state_counts [OF m] s k a c show ?thesis by simp
qed

text \<open>A first run adds one entry and creates the bucket of the day; a second run discovers
  the same candidate, adds nothing and counts nothing.\<close>

theorem run_counts_added_entries_witness:
  "scraper \<lparr>state = default_state, scraper = Some (CheeseScraper example_libs),
            daily_target = 10\<rparr> = Some (CheeseScraper example_libs)
   \<and> run_body example_libs (CheeseScraper example_libs) 10 default_state (images world0)
       = (Completed 1, state1, images1)
   \<and> total_images_scraped default_state = Some 0
   \<and> total_images_scraped state1 = Some 1
   \<and> daily_bucket ''2025-06-01'' default_state = None
   \<and> daily_scraped ''2025-06-01'' state1 = Some 1
   \<and> pending_uploads default_state = []
   \<and> pending_uploads state1 = [entry1]
   \<and> run_body example_libs (CheeseScraper example_libs) 10 state1 images1
       = (Completed 0, state1, images1)
   \<and> CheeseScraper example_libs 10 images1 = (Inr [candidate1], images1)
   \<and> state (fst (run example_libs
         \<lparr>state = state1, scraper = Some (CheeseScraper example_libs), daily_target = 10\<rparr>
         \<lparr>state_file = Some (Doc state1), state_file_writable = True, images = images1\<rparr>))
       = state1"
proof -
  let ?a0 = "\<lparr>state = default_state, scraper = Some (CheeseScraper example_libs),
              daily_target = 10\<rparr>"
  let ?a1 = "\<lparr>state = state1, scraper = Some (CheeseScraper example_libs), daily_target = 10\<rparr>"
  let ?w1 = "\<lparr>state_file = Some (Doc state1), state_file_writable = True, images = images1\<rparr>"
  have s0: "scraper ?a0 = Some (CheeseScraper example_libs)" by simp
  have s1: "scraper ?a1 = Some (CheeseScraper example_libs)" by simp
  have b0: "run_body example_libs (CheeseScraper example_libs) (daily_target ?a0) (state ?a0)
              (images world0) = (Completed 1, state1, images1)"
    by (simp add: world0_def example_run_body_first)
  have b1: "run_body example_libs (CheeseScraper example_libs) (daily_target ?a1) (state ?a1)
              (images ?w1) = (Completed 0, state1, images1)"
    by (simp add: example_run_body_second)
  note t0 = run_counts_added_entries [OF s0 b0]
  note t1 = run_counts_added_entries [OF s1 b1]
  have d0: "daily_bucket ''2025-06-01'' default_state = None"
    by (simp add: daily_bucket_def default_state_def)
  have tot0: "total_images_scraped default_state = Some 0"
    by (simp add: total_images_scraped_def default_state_def)
  from t0 tot0 have tot1: "total_images_scraped state1 = Some 1" by auto
  from t0 d0 have d1: "daily_scraped ''2025-06-01'' state1 = Some 1"
    by (simp add: example_now)
  from t1 have r1: "state (fst (run example_libs ?a1 ?w1)) = state1" by simp
  have p0: "pending_uploads default_state = []"
    by (simp add: pending_uploads_def default_state_def)
  have p1: "pending_uploads state1 = [entry1]"
    by (simp add: pending_uploads_def state1_def)
  have c: "CheeseScraper example_libs 10 images1 = (Inr [candidate1], images1)"
    by (simp add: CheeseScraper_def example_session_again)
  from s0 b0 tot0 tot1 d0 d1 p0 p1 b1 c r1 show ?thesis by simp
qed

text \<open>
  Claim C9. Every entry a run appends to the queue comes from a candidate the discovery
  returned, whose file is on disk: its \<^verbatim>\<open>file_path\<close> is \<open>file://\<close> followed by the
  resolved path of the file (an absolute URI as soon as the resolved path is absolute), its
  \<^verbatim>\<open>public_id\<close> is \<open>cheese-collection/\<close>, the stem of the file, an underscore and
  the first 8 characters of the MD5 hex digest of the file's bytes, its \<^verbatim>\<open>tags\<close> are the
  tags joined by commas and its \<^verbatim>\<open>context\<close> the \<open>key=value\<close> pairs joined by bars.
\<close>

theorem queue_entry_fields:
  assumes "scraper a = Some sc"
    and "run_body L sc (daily_target a) (state a) (images w) = (out, st', fs')"
  shows "\<exists>added. pending_uploads (state (fst (run L a w))) = pending_uploads (state a) @ added
      \<and> (\<forall>e \<in> set added. \<exists>cands c content.
            sc (daily_target a) (images w) = (Inr cands, fs') \<and> c \<in> set cands
            \<and> fs' (cand_file_path c) = Some content
            \<and> e = JObj [(''file_path'', JStr (''file://'' @ resolve L (cand_file_path c))),
                        (''public_id'', JStr (''cheese-collection/'' @ stem (cand_file_path c)
                                               @ ''_'' @ take 8 (md5_hexdigest L content))),
                        (''tags'', JStr (join '','' (md_tags (cand_metadata c)))),
                        (''context'', JStr (join ''|'' (map (\<lambda>(k, v). k @ ''='' @ v)
                                                         (md_context (cand_metadata c)))))]
            \<and> (is_prefix ''/'' (resolve L (cand_file_path c)) \<longrightarrow>
                 is_prefix ''file:///'' (''file://'' @ resolve L (cand_file_path c))))"
proof -
  have s: "state (fst (run L a w)) = st'"
    using assms by (simp add: run_def)
  from run_body_state [OF assms(2)]
  consider (same) "st' = state a"
    | (merged) cands its where "sc (daily_target a) (images w) = (Inr cands, fs')"
        "make_pending_list L fs' cands = Inr its"
        "merge_into_state (now_date L) its (state a) = (out, st')"
    by blast
  then show ?thesis
  proof cases
    case same
    with s show ?thesis by (intro exI [of _ "[]"]) simp
  next
    case merged
    from merge_into_state_pending [OF merged(3)] obtain added where
      p: "pending_uploads st' = pending_uploads (state a) @ map item_json added"
      and sub: "set added \<subseteq> set its"
      by blast
    have "\<forall>e \<in> set (map item_json added). \<exists>cands c content.
            sc (daily_target a) (images w) = (Inr cands, fs') \<and> c \<in> set cands
            \<and> fs' (cand_file_path c) = Some content
            \<and> e = JObj [(''file_path'', JStr (''file://'' @ resolve L (cand_file_path c))),
                        (''public_id'', JStr (''cheese-collection/'' @ stem (cand_file_path c)
                                               @ ''_'' @ take 8 (md5_hexdigest L content))),
                        (''tags'', JStr (join '','' (md_tags (cand_metadata c)))),
                        (''context'', JStr (join ''|'' (map (\<lambda>(k, v). k @ ''='' @ v)
                                                         (md_context (cand_metadata c)))))]
            \<and> (is_prefix ''/'' (resolve L (cand_file_path c)) \<longrightarrow>
                 is_prefix ''file:///'' (''file://'' @ resolve L (cand_file_path c)))"
    proof
      fix e assume "e \<in> set (map item_json added)"
      then obtain it where it: "it \<in> set added" and e: "e = item_json it" by auto
      from it sub make_pending_list_items [OF merged(2)] obtain c where
        c: "c \<in> set cands" and mk: "make_pending_item L fs' c = Inr it" by blast
      from make_pending_item_Inr [OF mk] obtain content where
        f: "fs' (cand_file_path c) = Some content"
        and 1: "file_path it = ''file://'' @ resolve L (cand_file_path c)"
        and 2: "public_id it = ''cheese-collection/'' @ stem (cand_file_path c) @ ''_''
                               @ take 8 (md5_hexdigest L content)"
        and 3: "item_tags it = join '','' (md_tags (cand_metadata c))"
        and 4: "item_context it = join ''|'' (map (\<lambda>(k, v). k @ ''='' @ v)
                                                (md_context (cand_metadata c)))"
        by blast
      have abs: "is_prefix ''/'' (resolve L (cand_file_path c)) \<longrightarrow>
                 is_prefix ''file:///'' (''file://'' @ resolve L (cand_file_path c))"
        by simp
      have "e = JObj [(''file_path'', JStr (''file://'' @ resolve L (cand_file_path c))),
                        (''public_id'', JStr (''cheese-collection/'' @ stem (cand_file_path c)
                                               @ ''_'' @ take 8 (md5_hexdigest L content))),
                        (''tags'', JStr (join '','' (md_tags (cand_metadata c)))),
                        (''context'', JStr (join ''|'' (map (\<lambda>(k, v). k @ ''='' @ v)
                                                         (md_context (cand_metadata c)))))]"
        unfolding e item_json_def 1 2 3 4 ..
      with merged(1) c f abs show "\<exists>cands c content.
            sc (daily_target a) (images w) = (Inr cands, fs') \<and> c \<in> set cands
            \<and> fs' (cand_file_path c) = Some content
            \<and> e = JObj [(''file_path'', JStr (''file://'' @ resolve L (cand_file_path c))),
                        (''public_id'', JStr (''cheese-collection/'' @ stem (cand_file_path c)
                                               @ ''_'' @ take 8 (md5_hexdigest L content))),
                        (''tags'', JStr (join '','' (md_tags (cand_metadata c)))),
                        (''context'', JStr (join ''|'' (map (\<lambda>(k, v). k @ ''='' @ v)
                                                         (md_context (cand_metadata c)))))]
            \<and> (is_prefix ''/'' (resolve L (cand_file_path c)) \<longrightarrow>
                 is_prefix ''file:///'' (''file://'' @ resolve L (cand_file_path c)))"
        by blast
    qed
    with p s show ?thesis by blast
  qed
qed

text \<open>The entry of the first run in the example environment.\<close>

theorem queue_entry_fields_witness:
  "scraper \<lparr>state = default_state, scraper = Some (CheeseScraper example_libs),
            daily_target = 10\<rparr> = Some (CheeseScraper example_libs)
   \<and> run_body example_libs (CheeseScraper example_libs) 10 default_state (images world0)
       = (Completed 1, state1, images1)
   \<and> CheeseScraper example_libs 10 (images world0) = (Inr [candidate1], images1)
   \<and> images1 (cand_file_path candidate1) = Some [200, 200]
   \<and> is_prefix ''/'' (resolve example_libs (cand_file_path candidate1))
   \<and> (\<exists>added. pending_uploads (state (fst (run example_libs
           \<lparr>state = default_state, scraper = Some (CheeseScraper example_libs),
            daily_target = 10\<rparr> world0))) = pending_uploads default_state @ added
         \<and> added = [JObj [(''file_path'',
                             JStr ''file:///srv/agent/scraped_cheese_images/semi_soft_24fd64e7e4.jpg''),
                            (''public_id'',
                             JStr ''cheese-collection/semi_soft_24fd64e7e4_21811d67''),
                            (''tags'', JStr ''cheese,semi soft''),
                            (''context'',
                             JStr ''source=google-images|license=creative-commons|scrape_date=2025-06-01'')]])"
proof -
  let ?a0 = "\<lparr>state = default_state, scraper = Some (CheeseScraper example_libs),
              daily_target = 10\<rparr>"
  have s0: "scraper ?a0 = Some (CheeseScraper example_libs)" by simp
  have b0: "run_body example_libs (CheeseScraper example_libs) (daily_target ?a0) (state ?a0)
              (images world0) = (Completed 1, state1, images1)"
    by (simp add: world0_def example_run_body_first)
  have c: "CheeseScraper example_libs 10 (images world0) = (Inr [candidate1], images1)"
    by (simp add: CheeseScraper_def example_session_empty world0_def)
  have f: "images1 (cand_file_path candidate1) = Some [200, 200]"
    by (simp add: images1_def candidate1_def)
  have r: "is_prefix ''/'' (resolve example_libs (cand_file_path candidate1))"
    by (simp add: example_libs_def)
  have p0: "pending_uploads default_state = []"
    by (simp add: pending_uploads_def default_state_def)
  have p1: "pending_uploads state1 = [entry1]"
    by (simp add: pending_uploads_def state1_def)
  have st: "state (fst (run example_libs ?a0 world0)) = state1"
    by (simp add: example_run_first)
  from queue_entry_fields [OF s0 b0] obtain added where
    a: "pending_uploads (state (fst (run example_libs ?a0 world0)))
          = pending_uploads default_state @ added"
    by auto
  with st p0 p1 have "added = [entry1]" by simp
  with a have "\<exists>added. pending_uploads (state (fst (run example_libs ?a0 world0)))
          = pending_uploads default_state @ added
         \<and> added = [JObj [(''file_path'',
                             JStr ''file:///srv/agent/scraped_cheese_images/semi_soft_24fd64e7e4.jpg''),
                            (''public_id'',
                             JStr ''cheese-collection/semi_soft_24fd64e7e4_21811d67''),
                            (''tags'', JStr ''cheese,semi soft''),
                            (''context'',
                             JStr ''source=google-images|license=creative-commons|scrape_date=2025-06-01'')]]"
    by (simp add: entry1_def)
  with s0 b0 c f r show ?thesis by simp
qed

end
